theory Spec2Isabelle
  imports Main
begin

section \<open>Strings and the Go standard-library helpers the converter calls\<close>

text \<open>
  A Go string is a sequence of bytes and \<open>len\<close> counts bytes, so a field is a
  \<^typ>\<open>string\<close> (a list of 8-bit characters) and \<open>len(s)\<close> is \<^term>\<open>length s\<close>.
  The helpers of packages \<open>strings\<close>, \<open>strconv\<close>, \<open>regexp\<close> and \<open>fmt\<close> are not part
  of the repository; they are modelled here on byte strings. \<open>ToLower\<close> follows the
  library on ASCII letters (the library also knows the case pairs of the letters outside
  ASCII; the converter calls \<open>ToLower\<close> on ASCII text only). Lengths and counters are
  \<^typ>\<open>int\<close>: a length is bounded by the memory of the machine, far below the range of
  Go's 64-bit \<open>int\<close>, and the configured numbers are only compared, never computed with.
\<close>

subsection \<open>\<open>strings.TrimSpace\<close>\<close>

text \<open>
  \<open>TrimSpace\<close> removes, at both ends, the characters for which \<open>unicode.IsSpace\<close>
  holds: the six of ASCII, U+0085 and U+00A0, and U+1680, U+2000 to U+200A, U+2028,
  U+2029, U+202F, U+205F and U+3000. In a string of bytes these are the six bytes of
  \<open>isSpace\<close>, two sequences of two bytes and seventeen of three bytes (their UTF-8
  encodings); a sequence that is not the whole encoding of one of them is no white space.
\<close>

definition isSpace :: "char \<Rightarrow> bool" where
  "isSpace c = (c \<in> set [CHR 0x09, CHR 0x0A, CHR 0x0B, CHR 0x0C, CHR 0x0D, CHR 0x20])"

definition isSpace2 :: "char \<Rightarrow> char \<Rightarrow> bool" where
  "isSpace2 a b = (a = CHR 0xC2 \<and> (b = CHR 0x85 \<or> b = CHR 0xA0))"

definition isSpace3 :: "char \<Rightarrow> char \<Rightarrow> char \<Rightarrow> bool" where
  "isSpace3 a b c =
     ((a = CHR 0xE1 \<and> b = CHR 0x9A \<and> c = CHR 0x80)
      \<or> (a = CHR 0xE2 \<and> b = CHR 0x80
          \<and> c \<in> set [CHR 0x80, CHR 0x81, CHR 0x82, CHR 0x83, CHR 0x84, CHR 0x85, CHR 0x86,
                       CHR 0x87, CHR 0x88, CHR 0x89, CHR 0x8A, CHR 0xA8, CHR 0xA9, CHR 0xAF])
      \<or> (a = CHR 0xE2 \<and> b = CHR 0x81 \<and> c = CHR 0x9F)
      \<or> (a = CHR 0xE3 \<and> b = CHR 0x80 \<and> c = CHR 0x80))"

fun trimLeftSpace :: "string \<Rightarrow> string" where
  "trimLeftSpace (a # b # c # s) =
     (if isSpace a then trimLeftSpace (b # c # s)
      else if isSpace2 a b then trimLeftSpace (c # s)
      else if isSpace3 a b c then trimLeftSpace s
      else a # b # c # s)"
| "trimLeftSpace [a, b] =
     (if isSpace a then trimLeftSpace [b] else if isSpace2 a b then [] else [a, b])"
| "trimLeftSpace [a] = (if isSpace a then [] else [a])"
| "trimLeftSpace [] = []"

text \<open>
  \<open>trimRightSpace\<close> works on the reversed string: \<open>c\<close> is the last byte, \<open>b\<close> the one
  before it.
\<close>

fun trimRightSpace :: "string \<Rightarrow> string" where
  "trimRightSpace (c # b # a # s) =
     (if isSpace c then trimRightSpace (b # a # s)
      else if isSpace2 b c then trimRightSpace (a # s)
      else if isSpace3 a b c then trimRightSpace s
      else c # b # a # s)"
| "trimRightSpace [c, b] =
     (if isSpace c then trimRightSpace [b] else if isSpace2 b c then [] else [c, b])"
| "trimRightSpace [c] = (if isSpace c then [] else [c])"
| "trimRightSpace [] = []"

definition TrimSpace :: "string \<Rightarrow> string" where
  "TrimSpace s = rev (trimRightSpace (rev (trimLeftSpace s)))"

subsection \<open>\<open>strings.EqualFold\<close>\<close>

text \<open>
  \<open>EqualFold\<close> reads its two arguments as UTF-8 and compares them rune by rune under
  simple Unicode case folding. A rune is an \<^typ>\<open>int\<close>. \<open>DecodeRuneInString\<close> gives the
  first rune of a string and the number of bytes it takes: a byte below \<open>0x80\<close> is
  itself; a lead byte from \<open>0xC2\<close> to \<open>0xF4\<close> followed by the one, two or three bytes
  its encoding asks for (the second one in the narrower range that excludes overlong
  forms, surrogates and values above U+10FFFF) is the encoded rune; anything else, also
  an encoding cut short by the end of the string, is U+FFFD and takes one byte.
\<close>

definition byteIn :: "int \<Rightarrow> char \<Rightarrow> int \<Rightarrow> bool" where
  "byteIn lo b hi = (lo \<le> of_char b \<and> of_char b \<le> hi)"

definition contByte :: "char \<Rightarrow> bool" where
  "contByte b = byteIn 0x80 b 0xBF"

definition secondByte :: "char \<Rightarrow> char \<Rightarrow> bool" where
  "secondByte a b =
     (if a = CHR 0xE0 then byteIn 0xA0 b 0xBF
      else if a = CHR 0xED then byteIn 0x80 b 0x9F
      else if a = CHR 0xF0 then byteIn 0x90 b 0xBF
      else if a = CHR 0xF4 then byteIn 0x80 b 0x8F
      else contByte b)"

text \<open>\<open>lowBits b k\<close>: the low bits of the byte \<open>b\<close>, those of a value below \<open>k\<close>.\<close>

definition lowBits :: "char \<Rightarrow> int \<Rightarrow> int" where
  "lowBits b k = of_char b mod k"

definition RuneError :: int where
  "RuneError = 0xFFFD"

definition DecodeRuneInString :: "string \<Rightarrow> int \<times> nat" where
  "DecodeRuneInString s =
     (case s of
        [] \<Rightarrow> (RuneError, 0)
      | a # s1 \<Rightarrow>
          if byteIn 0x00 a 0x7F then (of_char a, 1)
          else if byteIn 0xC2 a 0xDF
          then (case s1 of
                  b # s2 \<Rightarrow>
                    if contByte b then (lowBits a 0x20 * 64 + lowBits b 0x40, 2) else (RuneError, 1)
                | [] \<Rightarrow> (RuneError, 1))
          else if byteIn 0xE0 a 0xEF
          then (case s1 of
                  b # c # s3 \<Rightarrow>
                    if secondByte a b \<and> contByte c
                    then ((lowBits a 0x10 * 64 + lowBits b 0x40) * 64 + lowBits c 0x40, 3)
                    else (RuneError, 1)
                | _ \<Rightarrow> (RuneError, 1))
          else if byteIn 0xF0 a 0xF4
          then (case s1 of
                  b # c # d # s4 \<Rightarrow>
                    if secondByte a b \<and> contByte c \<and> contByte d
                    then (((lowBits a 0x08 * 64 + lowBits b 0x40) * 64 + lowBits c 0x40) * 64
                            + lowBits d 0x40, 4)
                    else (RuneError, 1)
                | _ \<Rightarrow> (RuneError, 1))
          else (RuneError, 1))"

text \<open>
  The runes of a string, as \<open>for _, r := range s\<close> yields them: one \<open>DecodeRuneInString\<close>
  after the other.
\<close>

function runes :: "string \<Rightarrow> int list" where
  "runes [] = []"
| "runes (a # s) =
     fst (DecodeRuneInString (a # s)) # runes (drop (snd (DecodeRuneInString (a # s)) - 1) s)"
  by pat_completeness auto
termination
  by (relation "measure length") auto

text \<open>
  \<open>unicode.SimpleFold\<close> goes through the runes that are equal under simple case
  folding: it gives the next larger rune of the class, and the smallest one after the
  largest. The classes are those of the file \<open>CaseFolding.txt\<close> (status \<open>C\<close> and \<open>S\<close>)
  of Unicode 15.0.0, the version of the tables of package \<open>unicode\<close> in Go 1.21 to
  1.24 (the program is dated April 2025). \<open>foldOrbits\<close> lists the classes of three and
  four runes in increasing order. A class of two runes
  is a rune \<open>r\<close> and \<open>r + delta\<close>; an entry \<open>(lo, hi, step, delta)\<close> of \<open>foldRanges\<close>
  stands for the classes of \<open>lo\<close>, \<open>lo + step\<close>, ... up to \<open>hi\<close>. A rune in no class
  folds to itself only.
\<close>

definition foldOrbits :: "int list list" where
  "foldOrbits =
     [[0x4B, 0x6B, 0x212A], [0x53, 0x73, 0x17F], [0xB5, 0x39C, 0x3BC],
      [0xC5, 0xE5, 0x212B], [0x1C4, 0x1C5, 0x1C6], [0x1C7, 0x1C8, 0x1C9],
      [0x1CA, 0x1CB, 0x1CC], [0x1F1, 0x1F2, 0x1F3], [0x345, 0x399, 0x3B9, 0x1FBE],
      [0x392, 0x3B2, 0x3D0], [0x395, 0x3B5, 0x3F5], [0x398, 0x3B8, 0x3D1, 0x3F4],
      [0x39A, 0x3BA, 0x3F0], [0x3A0, 0x3C0, 0x3D6], [0x3A1, 0x3C1, 0x3F1],
      [0x3A3, 0x3C2, 0x3C3], [0x3A6, 0x3C6, 0x3D5], [0x3A9, 0x3C9, 0x2126],
      [0x412, 0x432, 0x1C80], [0x414, 0x434, 0x1C81], [0x41E, 0x43E, 0x1C82],
      [0x421, 0x441, 0x1C83], [0x422, 0x442, 0x1C84, 0x1C85], [0x42A, 0x44A, 0x1C86],
      [0x462, 0x463, 0x1C87], [0x1C88, 0xA64A, 0xA64B], [0x1E60, 0x1E61, 0x1E9B]]"

definition foldRanges :: "(int \<times> int \<times> int \<times> int) list" where
  "foldRanges =
     [(0x41, 0x4A, 1, 32), (0x4C, 0x52, 1, 32), (0x54, 0x5A, 1, 32), (0xC0, 0xC4, 1, 32),
      (0xC6, 0xD6, 1, 32), (0xD8, 0xDE, 1, 32), (0xDF, 0xDF, 1, 7615),
      (0xFF, 0xFF, 1, 121), (0x100, 0x12E, 2, 1), (0x132, 0x136, 2, 1),
      (0x139, 0x147, 2, 1), (0x14A, 0x176, 2, 1), (0x179, 0x17D, 2, 1),
      (0x180, 0x180, 1, 195), (0x181, 0x181, 1, 210), (0x182, 0x184, 2, 1),
      (0x186, 0x186, 1, 206), (0x187, 0x187, 1, 1), (0x189, 0x18A, 1, 205),
      (0x18B, 0x18B, 1, 1), (0x18E, 0x18E, 1, 79), (0x18F, 0x18F, 1, 202),
      (0x190, 0x190, 1, 203), (0x191, 0x191, 1, 1), (0x193, 0x193, 1, 205),
      (0x194, 0x194, 1, 207), (0x195, 0x195, 1, 97), (0x196, 0x196, 1, 211),
      (0x197, 0x197, 1, 209), (0x198, 0x198, 1, 1), (0x19A, 0x19A, 1, 163),
      (0x19C, 0x19C, 1, 211), (0x19D, 0x19D, 1, 213), (0x19E, 0x19E, 1, 130),
      (0x19F, 0x19F, 1, 214), (0x1A0, 0x1A4, 2, 1), (0x1A6, 0x1A6, 1, 218),
      (0x1A7, 0x1A7, 1, 1), (0x1A9, 0x1A9, 1, 218), (0x1AC, 0x1AC, 1, 1),
      (0x1AE, 0x1AE, 1, 218), (0x1AF, 0x1AF, 1, 1), (0x1B1, 0x1B2, 1, 217),
      (0x1B3, 0x1B5, 2, 1), (0x1B7, 0x1B7, 1, 219), (0x1B8, 0x1B8, 1, 1),
      (0x1BC, 0x1BC, 1, 1), (0x1BF, 0x1BF, 1, 56), (0x1CD, 0x1DB, 2, 1),
      (0x1DE, 0x1EE, 2, 1), (0x1F4, 0x1F4, 1, 1), (0x1F8, 0x21E, 2, 1),
      (0x222, 0x232, 2, 1), (0x23A, 0x23A, 1, 10795), (0x23B, 0x23B, 1, 1),
      (0x23E, 0x23E, 1, 10792), (0x23F, 0x240, 1, 10815), (0x241, 0x241, 1, 1),
      (0x244, 0x244, 1, 69), (0x245, 0x245, 1, 71), (0x246, 0x24E, 2, 1),
      (0x250, 0x250, 1, 10783), (0x251, 0x251, 1, 10780), (0x252, 0x252, 1, 10782),
      (0x25C, 0x25C, 1, 42319), (0x261, 0x261, 1, 42315), (0x265, 0x265, 1, 42280),
      (0x266, 0x266, 1, 42308), (0x26A, 0x26A, 1, 42308), (0x26B, 0x26B, 1, 10743),
      (0x26C, 0x26C, 1, 42305), (0x271, 0x271, 1, 10749), (0x27D, 0x27D, 1, 10727),
      (0x282, 0x282, 1, 42307), (0x287, 0x287, 1, 42282), (0x29D, 0x29D, 1, 42261),
      (0x29E, 0x29E, 1, 42258), (0x370, 0x372, 2, 1), (0x376, 0x376, 1, 1),
      (0x37B, 0x37D, 1, 130), (0x37F, 0x37F, 1, 116), (0x386, 0x386, 1, 38),
      (0x388, 0x38A, 1, 37), (0x38C, 0x38C, 1, 64), (0x38E, 0x38F, 1, 63),
      (0x391, 0x393, 2, 32), (0x394, 0x396, 2, 32), (0x397, 0x397, 1, 32),
      (0x39B, 0x39D, 2, 32), (0x39E, 0x39F, 1, 32), (0x3A4, 0x3A5, 1, 32),
      (0x3A7, 0x3A8, 1, 32), (0x3AA, 0x3AB, 1, 32), (0x3CF, 0x3CF, 1, 8),
      (0x3D8, 0x3EE, 2, 1), (0x3F2, 0x3F2, 1, 7), (0x3F7, 0x3F7, 1, 1),
      (0x3FA, 0x3FA, 1, 1), (0x400, 0x40F, 1, 80), (0x410, 0x411, 1, 32),
      (0x413, 0x415, 2, 32), (0x416, 0x41D, 1, 32), (0x41F, 0x420, 1, 32),
      (0x423, 0x429, 1, 32), (0x42B, 0x42F, 1, 32), (0x460, 0x460, 1, 1),
      (0x464, 0x480, 2, 1), (0x48A, 0x4BE, 2, 1), (0x4C0, 0x4C0, 1, 15),
      (0x4C1, 0x4CD, 2, 1), (0x4D0, 0x52E, 2, 1), (0x531, 0x556, 1, 48),
      (0x10A0, 0x10C5, 1, 7264), (0x10C7, 0x10C7, 1, 7264), (0x10CD, 0x10CD, 1, 7264),
      (0x10D0, 0x10FA, 1, 3008), (0x10FD, 0x10FF, 1, 3008), (0x13A0, 0x13EF, 1, 38864),
      (0x13F0, 0x13F5, 1, 8), (0x1D79, 0x1D79, 1, 35332), (0x1D7D, 0x1D7D, 1, 3814),
      (0x1D8E, 0x1D8E, 1, 35384), (0x1E00, 0x1E5E, 2, 1), (0x1E62, 0x1E94, 2, 1),
      (0x1EA0, 0x1EFE, 2, 1), (0x1F00, 0x1F07, 1, 8), (0x1F10, 0x1F15, 1, 8),
      (0x1F20, 0x1F27, 1, 8), (0x1F30, 0x1F37, 1, 8), (0x1F40, 0x1F45, 1, 8),
      (0x1F51, 0x1F57, 2, 8), (0x1F60, 0x1F67, 1, 8), (0x1F70, 0x1F71, 1, 74),
      (0x1F72, 0x1F75, 1, 86), (0x1F76, 0x1F77, 1, 100), (0x1F78, 0x1F79, 1, 128),
      (0x1F7A, 0x1F7B, 1, 112), (0x1F7C, 0x1F7D, 1, 126), (0x1F80, 0x1F87, 1, 8),
      (0x1F90, 0x1F97, 1, 8), (0x1FA0, 0x1FA7, 1, 8), (0x1FB0, 0x1FB1, 1, 8),
      (0x1FB3, 0x1FB3, 1, 9), (0x1FC3, 0x1FC3, 1, 9), (0x1FD0, 0x1FD1, 1, 8),
      (0x1FE0, 0x1FE1, 1, 8), (0x1FE5, 0x1FE5, 1, 7), (0x1FF3, 0x1FF3, 1, 9),
      (0x2132, 0x2132, 1, 28), (0x2160, 0x216F, 1, 16), (0x2183, 0x2183, 1, 1),
      (0x24B6, 0x24CF, 1, 26), (0x2C00, 0x2C2F, 1, 48), (0x2C60, 0x2C60, 1, 1),
      (0x2C67, 0x2C6B, 2, 1), (0x2C72, 0x2C72, 1, 1), (0x2C75, 0x2C75, 1, 1),
      (0x2C80, 0x2CE2, 2, 1), (0x2CEB, 0x2CED, 2, 1), (0x2CF2, 0x2CF2, 1, 1),
      (0xA640, 0xA648, 2, 1), (0xA64C, 0xA66C, 2, 1), (0xA680, 0xA69A, 2, 1),
      (0xA722, 0xA72E, 2, 1), (0xA732, 0xA76E, 2, 1), (0xA779, 0xA77B, 2, 1),
      (0xA77E, 0xA786, 2, 1), (0xA78B, 0xA78B, 1, 1), (0xA790, 0xA792, 2, 1),
      (0xA794, 0xA794, 1, 48), (0xA796, 0xA7A8, 2, 1), (0xA7B3, 0xA7B3, 1, 928),
      (0xA7B4, 0xA7C2, 2, 1), (0xA7C7, 0xA7C9, 2, 1), (0xA7D0, 0xA7D0, 1, 1),
      (0xA7D6, 0xA7D8, 2, 1), (0xA7F5, 0xA7F5, 1, 1), (0xFF21, 0xFF3A, 1, 32),
      (0x10400, 0x10427, 1, 40), (0x104B0, 0x104D3, 1, 40), (0x10570, 0x1057A, 1, 39),
      (0x1057C, 0x1058A, 1, 39), (0x1058C, 0x10592, 1, 39), (0x10594, 0x10595, 1, 39),
      (0x10C80, 0x10CB2, 1, 64), (0x118A0, 0x118BF, 1, 32), (0x16E40, 0x16E5F, 1, 32),
      (0x1E900, 0x1E921, 1, 34)]"

definition foldsUp :: "int \<Rightarrow> int \<times> int \<times> int \<times> int \<Rightarrow> bool" where
  "foldsUp r e =
     (case e of (lo, hi, step, delta) \<Rightarrow> lo \<le> r \<and> r \<le> hi \<and> (r - lo) mod step = 0)"

definition foldsDown :: "int \<Rightarrow> int \<times> int \<times> int \<times> int \<Rightarrow> bool" where
  "foldsDown r e =
     (case e of (lo, hi, step, delta) \<Rightarrow>
        lo + delta \<le> r \<and> r \<le> hi + delta \<and> (r - delta - lo) mod step = 0)"

text \<open>
  \<open>foldOrbit r\<close>: the runes \<open>SimpleFold(r)\<close>, \<open>SimpleFold(SimpleFold(r))\<close>, ... that come
  before \<open>r\<close> is reached again: the larger runes of the class of \<open>r\<close>, then the smaller.
\<close>

definition foldOrbit :: "int \<Rightarrow> int list" where
  "foldOrbit r =
     (case find (\<lambda>orb. r \<in> set orb) foldOrbits of
        Some orb \<Rightarrow> filter (\<lambda>x. r < x) orb @ filter (\<lambda>x. x < r) orb
      | None \<Rightarrow>
          (case find (foldsUp r) foldRanges of
             Some (lo, hi, step, delta) \<Rightarrow> [r + delta]
           | None \<Rightarrow>
               (case find (foldsDown r) foldRanges of
                  Some (lo, hi, step, delta) \<Rightarrow> [r - delta]
                | None \<Rightarrow> [])))"

definition SimpleFold :: "int \<Rightarrow> int" where
  "SimpleFold r = (case foldOrbit r of [] \<Rightarrow> r | x # xs \<Rightarrow> x)"

text \<open>
  The loop \<open>r := SimpleFold(sr); for r != sr && r < tr { r = SimpleFold(r) }\<close> of
  \<open>EqualFold\<close>, over the values that \<open>r\<close> takes; the result is the last value of \<open>r\<close>.
\<close>

fun foldLoop :: "int list \<Rightarrow> int \<Rightarrow> int \<Rightarrow> int" where
  "foldLoop [] sr tr = sr"
| "foldLoop (r # rs) sr tr = (if r < tr then foldLoop rs sr tr else r)"

text \<open>
  One step of \<open>EqualFold\<close>, for the runes \<open>a\<close> and \<open>b\<close>: they are equal, or, \<open>sr\<close> being
  the smaller and \<open>tr\<close> the larger, both are ASCII and \<open>sr\<close> is the capital of \<open>tr\<close>, or
  \<open>tr\<close> is outside ASCII and the loop from \<open>sr\<close> ends at \<open>tr\<close>.
\<close>

definition equalFoldRune :: "int \<Rightarrow> int \<Rightarrow> bool" where
  "equalFoldRune a b =
     (if a = b then True
      else if max a b < 0x80
           then 0x41 \<le> min a b \<and> min a b \<le> 0x5A \<and> max a b = min a b + 0x20
           else foldLoop (foldOrbit (min a b)) (min a b) (max a b) = max a b)"

fun equalFoldRunes :: "int list \<Rightarrow> int list \<Rightarrow> bool" where
  "equalFoldRunes [] [] = True"
| "equalFoldRunes (sr # s) (tr # t) = (if equalFoldRune sr tr then equalFoldRunes s t else False)"
| "equalFoldRunes s t = False"

text \<open>
  \<open>EqualFold(s, t)\<close>. The library first compares byte by byte while both bytes are
  ASCII, with the same test as the one of \<open>equalFoldRune\<close> for two ASCII runes, and
  compares rune by rune from the first byte outside ASCII; a string that ends before the
  other is not equal to it. So the answer is that of the comparison rune by rune.
\<close>

definition EqualFold :: "string \<Rightarrow> string \<Rightarrow> bool" where
  "EqualFold s t = equalFoldRunes (runes s) (runes t)"

subsection \<open>Other helpers of \<open>strings\<close> and \<open>fmt\<close>\<close>

definition toLowerByte :: "char \<Rightarrow> char" where
  "toLowerByte c =
     (case map_of (zip ''ABCDEFGHIJKLMNOPQRSTUVWXYZ'' ''abcdefghijklmnopqrstuvwxyz'') c of
        None \<Rightarrow> c | Some l \<Rightarrow> l)"

definition ToLower :: "string \<Rightarrow> string" where
  "ToLower s = map toLowerByte s"

text \<open>\<open>strings.Trim(s, cutset)\<close>: the bytes of \<open>cutset\<close> are removed at both ends.\<close>

definition Trim :: "string \<Rightarrow> string \<Rightarrow> string" where
  "Trim s cutset =
     rev (dropWhile (\<lambda>c. c \<in> set cutset) (rev (dropWhile (\<lambda>c. c \<in> set cutset) s)))"

text \<open>
  \<open>strings.ReplaceAll(s, old, new)\<close>: the non-overlapping occurrences of \<open>old\<close>, found
  from the left, become \<open>new\<close>. The converter only calls it with a one-byte \<open>old\<close>; for
  an empty \<open>old\<close> (where the library would put \<open>new\<close> between the characters) the model
  returns \<open>s\<close>.
\<close>

function ReplaceAll :: "string \<Rightarrow> string \<Rightarrow> string \<Rightarrow> string" where
  "ReplaceAll [] old new = []"
| "ReplaceAll (c # cs) old new =
     (if old \<noteq> [] \<and> take (length old) (c # cs) = old
      then new @ ReplaceAll (drop (length old) (c # cs)) old new
      else c # ReplaceAll cs old new)"
  by pat_completeness auto
termination
  by (relation "measure (\<lambda>(s, old, new). length s)") auto

text \<open>\<open>strings.Join(elems, sep)\<close>.\<close>

fun Join :: "string list \<Rightarrow> string \<Rightarrow> string" where
  "Join [] sep = []"
| "Join [x] sep = x"
| "Join (x # y # ys) sep = x @ sep @ Join (y # ys) sep"

text \<open>The verb \<open>%d\<close> of \<open>fmt.Sprintf\<close>: an integer in decimal, with a minus sign.\<close>

definition digitChar :: "int \<Rightarrow> char" where
  "digitChar n = ''0123456789'' ! nat (n mod 10)"

function showDigits :: "int \<Rightarrow> string" where
  "showDigits n = (if n < 10 then [digitChar n] else showDigits (n div 10) @ [digitChar n])"
  by pat_completeness auto
termination
  by (relation "measure nat") auto

declare showDigits.simps [simp del]

definition showInt :: "int \<Rightarrow> string" where
  "showInt i = (if i < 0 then CHR ''-'' # showDigits (- i) else showDigits i)"

subsection \<open>\<open>strconv.ParseInt(s, 10, 64)\<close>\<close>

definition isDigit :: "char \<Rightarrow> bool" where
  "isDigit c = (c \<in> set ''0123456789'')"

definition digitVal :: "char \<Rightarrow> int" where
  "digitVal c = of_char c - 48"

definition digitsVal :: "int \<Rightarrow> string \<Rightarrow> int" where
  "digitsVal base ds = foldl (\<lambda>a c. base * a + digitVal c) 0 ds"

text \<open>
  An optional sign, then one or more decimal digits and nothing else (in base 10 the
  library takes no underscore); the value must fit 64 signed bits, otherwise the library
  returns a range error. \<open>None\<close> is any error.
\<close>

definition ParseInt :: "string \<Rightarrow> int option" where
  "ParseInt s =
     (case s of
        [] \<Rightarrow> None
      | c # cs \<Rightarrow>
          let neg = (c = CHR ''-'');
              ds = (if c = CHR ''+'' \<or> c = CHR ''-'' then cs else s)
          in if ds = [] \<or> \<not> list_all isDigit ds then None
             else let un = digitsVal 10 ds
                  in if \<not> neg \<and> un \<ge> 2 ^ 63 then None
                     else if neg \<and> un > 2 ^ 63 then None
                     else Some (if neg then - un else un))"

subsection \<open>\<open>strconv.ParseFloat(s, 64)\<close>: which strings parse without error\<close>

text \<open>
  The library first tries the special values: \<open>inf\<close> and \<open>infinity\<close> with an optional
  sign, \<open>nan\<close> without one, letters in either case. Otherwise \<open>readFloat\<close> reads an
  optional sign, an optional \<open>0x\<close> (only when something follows it), a mantissa of digits
  with at most one point and at least one digit, and an exponent (\<open>e\<close>, or \<open>p\<close> after
  \<open>0x\<close>, where it is required) with an optional sign and at least one digit. The whole
  string must be consumed. Underscores are skipped while reading and checked afterwards by
  \<open>underscoreOK\<close>: each one between two digits, or between the base prefix and a digit.
  A value that rounds beyond the largest 64-bit float is a range error.
\<close>

definition stripSign :: "string \<Rightarrow> string" where
  "stripSign s =
     (case s of [] \<Rightarrow> [] | c # cs \<Rightarrow> if c = CHR ''+'' \<or> c = CHR ''-'' then cs else s)"

definition special :: "string \<Rightarrow> bool" where
  "special s =
     (map toLowerByte (stripSign s) = ''inf'' \<or> map toLowerByte (stripSign s) = ''infinity''
      \<or> map toLowerByte s = ''nan'')"

definition isHexLetter :: "char \<Rightarrow> bool" where
  "isHexLetter c = (c \<in> set ''abcdefABCDEF'')"

definition hexVal :: "char \<Rightarrow> int" where
  "hexVal c = (if isDigit c then digitVal c else of_char (toLowerByte c) - 87)"

text \<open>
  \<open>underscoreOK\<close>: \<open>saw\<close> is the kind of the last character read, \<open>CHR ''0''\<close> for a
  digit or the base prefix, \<open>CHR ''_''\<close> for an underscore, \<open>CHR ''!''\<close> for anything else
  and \<open>CHR ''^''\<close> at the beginning.
\<close>

fun underscoreScan :: "bool \<Rightarrow> char \<Rightarrow> string \<Rightarrow> bool" where
  "underscoreScan hex saw [] = (saw \<noteq> CHR ''_'')"
| "underscoreScan hex saw (c # cs) =
     (if isDigit c \<or> (hex \<and> isHexLetter c) then underscoreScan hex (CHR ''0'') cs
      else if c = CHR ''_'' then (saw = CHR ''0'' \<and> underscoreScan hex (CHR ''_'') cs)
      else if saw = CHR ''_'' then False
      else underscoreScan hex (CHR ''!'') cs)"

definition underscoreOK :: "string \<Rightarrow> bool" where
  "underscoreOK s0 =
     (let s = stripSign s0
      in case s of
           c # x # rest \<Rightarrow>
             if c = CHR ''0'' \<and> toLowerByte x \<in> set ''box''
             then underscoreScan (toLowerByte x = CHR ''x'') (CHR ''0'') rest
             else underscoreScan False (CHR ''^'') s
         | _ \<Rightarrow> underscoreScan False (CHR ''^'') s)"

text \<open>The exponent digits are accumulated only while the exponent is below 10000.\<close>

definition expVal :: "string \<Rightarrow> int" where
  "expVal ds =
     foldl (\<lambda>e c. if c = CHR ''_'' \<or> \<not> e < 10000 then e else e * 10 + digitVal c) 0 ds"

text \<open>
  \<open>overflows m b up down\<close>: the value \<open>m * b ^ up / b ^ down\<close> is at least
  \<open>2 ^ 1024 - 2 ^ 970\<close>, half a unit in the last place above the largest finite float,
  from where rounding to nearest gives infinity.
\<close>

definition overflows :: "int \<Rightarrow> int \<Rightarrow> nat \<Rightarrow> nat \<Rightarrow> bool" where
  "overflows m b up down = (if m = 0 then False else m * b ^ up \<ge> (2 ^ 1024 - 2 ^ 970) * b ^ down)"

definition hasHexPrefix :: "string \<Rightarrow> bool" where
  "hasHexPrefix s =
     (case s of
        c # x # y # rest \<Rightarrow> c = CHR ''0'' \<and> toLowerByte x = CHR ''x''
      | _ \<Rightarrow> False)"

definition mantChar :: "bool \<Rightarrow> char \<Rightarrow> bool" where
  "mantChar hex c = (c = CHR ''_'' \<or> c = CHR ''.'' \<or> isDigit c \<or> (hex \<and> isHexLetter c))"

definition mantissaOK :: "string \<Rightarrow> bool" where
  "mantissaOK mant =
     (length (filter (\<lambda>c. c = CHR ''.'') mant) \<le> 1
      \<and> filter (\<lambda>c. c \<noteq> CHR ''_'' \<and> c \<noteq> CHR ''.'') mant \<noteq> [])"

definition exponentOK :: "bool \<Rightarrow> string \<Rightarrow> bool" where
  "exponentOK hex rest =
     (case rest of
        [] \<Rightarrow> \<not> hex
      | c # cs \<Rightarrow>
          toLowerByte c = (if hex then CHR ''p'' else CHR ''e'')
          \<and> (case stripSign cs of
                [] \<Rightarrow> False
              | d # ds \<Rightarrow> isDigit d \<and> list_all (\<lambda>c. isDigit c \<or> c = CHR ''_'') ds))"

definition mantVal :: "bool \<Rightarrow> string \<Rightarrow> int" where
  "mantVal hex mant =
     foldl (\<lambda>a c. (if hex then 16 else 10) * a + hexVal c) 0
       (filter (\<lambda>c. c \<noteq> CHR ''_'' \<and> c \<noteq> CHR ''.'') mant)"

definition fracDigits :: "string \<Rightarrow> nat" where
  "fracDigits mant =
     length (filter (\<lambda>c. c \<noteq> CHR ''_'') (drop 1 (dropWhile (\<lambda>c. c \<noteq> CHR ''.'') mant)))"

text \<open>
  \<open>outOfRange hex m scale rest\<close>: the mantissa \<open>m\<close>, with \<open>scale\<close> digits (bits, after
  \<open>0x\<close>) behind the point and the exponent read from \<open>rest\<close>, overflows.
\<close>

definition outOfRange :: "bool \<Rightarrow> int \<Rightarrow> nat \<Rightarrow> string \<Rightarrow> bool" where
  "outOfRange hex m scale rest =
     (case rest of
        [] \<Rightarrow> overflows m (if hex then 2 else 10) 0 scale
      | c # cs \<Rightarrow>
          if take 1 cs = ''-''
          then overflows m (if hex then 2 else 10) 0 (nat (expVal (drop 1 cs)) + scale)
          else overflows m (if hex then 2 else 10) (nat (expVal (stripSign cs))) scale)"

definition readParts :: "bool \<Rightarrow> string \<Rightarrow> string \<Rightarrow> bool" where
  "readParts hex mant rest =
     (if \<not> mantissaOK mant then False
      else if \<not> exponentOK hex rest then False
      else \<not> outOfRange hex (mantVal hex mant)
                (if hex then 4 * fracDigits mant else fracDigits mant) rest)"

definition readBody :: "bool \<Rightarrow> string \<Rightarrow> bool" where
  "readBody hex body =
     readParts hex (takeWhile (mantChar hex) body) (dropWhile (mantChar hex) body)"

definition readUnsigned :: "string \<Rightarrow> bool" where
  "readUnsigned s = (if hasHexPrefix s then readBody True (drop 2 s) else readBody False s)"

definition readFloat :: "string \<Rightarrow> bool" where
  "readFloat s =
     (if CHR ''_'' \<in> set s \<and> \<not> underscoreOK s then False else readUnsigned (stripSign s))"

definition ParseFloat :: "string \<Rightarrow> bool" where
  "ParseFloat s = (special s \<or> readFloat s)"

subsection \<open>The date patterns of \<open>isDate\<close>\<close>

text \<open>
  Each of the five regular expressions of \<open>isDate\<close> is anchored at both ends and is a fixed
  sequence of \<open>\d\<close> (an ASCII digit) and literal characters, the last one with an optional
  final \<open>Z\<close>. In a shape, \<open>d\<close> stands for \<open>\d\<close> and every other character for itself.
\<close>

fun matchShape :: "string \<Rightarrow> string \<Rightarrow> bool" where
  "matchShape [] [] = True"
| "matchShape (p # ps) (c # cs) =
     ((if p = CHR ''d'' then isDigit c else c = p) \<and> matchShape ps cs)"
| "matchShape _ _ = False"

definition isInteger :: "string \<Rightarrow> bool" where
  "isInteger s = (ParseInt s \<noteq> None)"

definition isDecimal :: "string \<Rightarrow> bool" where
  "isDecimal s = ParseFloat s"

definition isDate :: "string \<Rightarrow> bool" where
  "isDate s =
     (matchShape ''dddd-dd-dd'' s \<or> matchShape ''dd/dd/dddd'' s
      \<or> matchShape ''dddd-dd-dd dd:dd:dd'' s \<or> matchShape ''dd/dd/dddd dd:dd:dd'' s
      \<or> matchShape ''dddd-dd-ddTdd:dd:dd'' s \<or> matchShape ''dddd-dd-ddTdd:dd:ddZ'' s)"

section \<open>The configuration\<close>

text \<open>
  \<open>Config\<close> as the converter declares it. \<open>ForceTypes\<close> is a Go map, looked up with
  the two-result form; \<open>SkipColumns\<close> is a map to \<open>bool\<close> read with the one-result form,
  which gives \<open>false\<close> for a missing key.
\<close>

record Config =
  InputFile :: string
  TableName :: string
  Delimiter :: char
  HasHeader :: bool
  VarcharLength :: int
  TextThreshold :: int
  BatchInsert :: bool
  BatchSize :: int
  NullString :: string
  ForceTypes :: "string \<rightharpoonup> string"
  SkipColumns :: "string \<rightharpoonup> bool"
  PrimaryKeys :: "string list"
  MaxSampleSize :: int

definition DefaultConfig :: Config where
  "DefaultConfig =
     \<lparr> InputFile = [], TableName = [], Delimiter = CHR '','', HasHeader = True,
       VarcharLength = 255, TextThreshold = 500, BatchInsert = True, BatchSize = 100,
       NullString = ''NULL'', ForceTypes = Map.empty, SkipColumns = Map.empty,
       PrimaryKeys = [], MaxSampleSize = 1000 \<rparr>"

definition skipped :: "Config \<Rightarrow> string \<Rightarrow> bool" where
  "skipped c h = (SkipColumns c h = Some True)"

section \<open>The value classifier\<close>

text \<open>
  \<open>refineType\<close>, the classifier of the converter with the sampling limit. The parameter
  \<open>currentType\<close> is received and never read.
\<close>

definition refineType :: "Config \<Rightarrow> string \<Rightarrow> string \<Rightarrow> string" where
  "refineType c currentType v =
     (if isInteger v then ''BIGINT''
      else if isDecimal v then ''DECIMAL(20,6)''
      else if isDate v then (if length v > 10 then ''DATETIME'' else ''DATE'')
      else let len = int (length v)
           in if len > TextThreshold c then ''TEXT''
              else if len > VarcharLength c
                   then ''VARCHAR('' @ showInt ((len div 50 + 1) * 50) @ '')''
                   else ''VARCHAR('' @ showInt (VarcharLength c) @ '')'')"

section \<open>Errors and the row source\<close>

text \<open>
  An error return is a value of \<open>error\<close>; a function that can fail returns
  \<open>error + 'a\<close>, \<open>Inl\<close> being the error. \<open>ErrReadingRecord\<close>, \<open>ErrSkippingHeader\<close>
  and \<open>ErrColumnCountMismatch\<close> are the three \<open>fmt.Errorf\<close> of the two passes (the
  first two wrap the reader's error, kept as its message). \<open>PanicIndexOutOfRange\<close> is
  the run-time panic of an index beyond the end of a slice.

  \<open>csv.Reader\<close> is outside the repository. A pass sees it as the sequence of the results
  of \<open>reader.Read()\<close> up to \<open>io.EOF\<close>: \<open>Inr record\<close> for a record returned without
  error, \<open>Inl message\<close> for any other error (the strict loops do not look at the record
  that may come with an error).
\<close>

datatype error =
    ErrReadingRecord string
  | ErrSkippingHeader string
  | ErrColumnCountMismatch int int
  | PanicIndexOutOfRange

type_synonym readResult = "string + string list"

text \<open>
  The reader as \<open>Convert\<close> makes it: \<open>csv.NewReader\<close> leaves \<open>FieldsPerRecord\<close> at 0
  and the converter never sets it. With that value the first record read (the header
  row, or the first row of a file without header, from which the headers are counted)
  fixes the number of fields, and \<open>Read\<close> returns every later record with another
  number of fields together with the error \<open>ErrFieldCount\<close>. \<open>readChecked n r\<close> is the
  result of \<open>Read\<close> for the record \<open>r\<close> once \<open>n\<close> fields are expected. The message kept
  is the one of \<open>ErrFieldCount\<close> itself; the reader puts the position of the record in
  front of it (\<open>record on line N:\<close>), which is left out.
\<close>

definition ErrFieldCount :: string where
  "ErrFieldCount = ''wrong number of fields''"

definition readChecked :: "nat \<Rightarrow> string list \<Rightarrow> readResult" where
  "readChecked n r = (if length r = n then Inr r else Inl ErrFieldCount)"

definition HasPrefix :: "string \<Rightarrow> string \<Rightarrow> bool" where
  "HasPrefix s p = (take (length p) s = p)"

definition nl :: string where
  "nl = [CHR 0x0A]"

definition backquote :: "string \<Rightarrow> string" where
  "backquote s = [CHR 0x60] @ s @ [CHR 0x60]"

section \<open>The identifier sanitizer\<close>

definition identChar :: "char \<Rightarrow> bool" where
  "identChar c =
     (c \<in> set ''abcdefghijklmnopqrstuvwxyzABCDEFGHIJKLMNOPQRSTUVWXYZ0123456789_'')"

text \<open>
  \<open>sanitizeRegex.ReplaceAllString(s, "_")\<close> with \<open>sanitizeRegex = [^a-zA-Z0-9_]+\<close>:
  the leftmost match is the longest run of characters outside the class, and the search
  goes on behind it. A character outside ASCII is outside the class, byte by byte.
\<close>

function sanitizeReplace :: "string \<Rightarrow> string" where
  "sanitizeReplace [] = []"
| "sanitizeReplace (c # cs) =
     (if identChar c then c # sanitizeReplace cs
      else CHR ''_'' # sanitizeReplace (dropWhile (\<lambda>x. \<not> identChar x) cs))"
  by pat_completeness auto
termination
  by (relation "measure length") (auto simp: length_dropWhile_le less_Suc_eq_le)

text \<open>\<open>leadingRegex.MatchString(name)\<close> with \<open>leadingRegex = ^[^a-zA-Z_]\<close>.\<close>

definition letterOrUnderscore :: "char \<Rightarrow> bool" where
  "letterOrUnderscore c =
     (c \<in> set ''abcdefghijklmnopqrstuvwxyzABCDEFGHIJKLMNOPQRSTUVWXYZ_'')"

definition leadingMatch :: "string \<Rightarrow> bool" where
  "leadingMatch name =
     (case name of [] \<Rightarrow> False | c # cs \<Rightarrow> \<not> letterOrUnderscore c)"

definition sanitizeColumnName :: "string \<Rightarrow> string" where
  "sanitizeColumnName name0 =
     ToLower (if leadingMatch (Trim (sanitizeReplace (TrimSpace name0)) ''_'')
              then ''_'' @ Trim (sanitizeReplace (TrimSpace name0)) ''_''
              else Trim (sanitizeReplace (TrimSpace name0)) ''_'')"

text \<open>\<open>readHeaders\<close> on the raw header record: an empty name becomes \<open>column_<i+1>\<close>.\<close>

fun headersFrom :: "int \<Rightarrow> string list \<Rightarrow> string list" where
  "headersFrom i [] = []"
| "headersFrom i (h # hs) =
     (if sanitizeColumnName h = [] then ''column_'' @ showInt (i + 1) else sanitizeColumnName h)
     # headersFrom (i + 1) hs"

section \<open>The column type resolver\<close>

definition initialType :: "Config \<Rightarrow> string \<Rightarrow> string" where
  "initialType c h =
     (case ForceTypes c h of
        Some forcedType \<Rightarrow> forcedType
      | None \<Rightarrow> if skipped c h then ''SKIP'' else ''TEXT'')"

definition allForced :: "string list \<Rightarrow> bool" where
  "allForced ts = list_all (\<lambda>t. \<not> (\<not> HasPrefix t ''VARCHAR'' \<and> t \<noteq> ''SKIP'')) ts"

text \<open>The body of the loop over the fields of one sampled record, for one column.\<close>

definition isNull :: "Config \<Rightarrow> string \<Rightarrow> bool" where
  "isNull c v = (v = [] \<or> EqualFold v (NullString c))"

definition refineCell :: "Config \<Rightarrow> string \<Rightarrow> string \<Rightarrow> string \<Rightarrow> string" where
  "refineCell c h t v =
     (if t = ''SKIP'' then t
      else if ForceTypes c h \<noteq> None then t
      else if isNull c (TrimSpace v) then t
      else if ForceTypes c h = None then refineType c t (TrimSpace v) else t)"

text \<open>
  The loop \<open>for i, value := range record\<close> writes \<open>columnTypes[i]\<close>. It runs only on a
  record as long as \<open>headers\<close>, and \<open>columnTypes\<close> was made that long, so no index is out
  of range; the last equation is for lists of other lengths, which never meet here.
\<close>

fun refineRow :: "Config \<Rightarrow> string list \<Rightarrow> string list \<Rightarrow> string list \<Rightarrow> string list" where
  "refineRow c (h # hs) (t # ts) (v # vs) = refineCell c h t v # refineRow c hs ts vs"
| "refineRow c hs ts vs = ts"

definition skipWarning :: "nat \<Rightarrow> nat \<Rightarrow> string" where
  "skipWarning got expected =
     ''Skipping row with '' @ showInt (int got) @ '' columns (expected ''
       @ showInt (int expected) @ '')''"

text \<open>
  The sampling loop. \<open>n\<close> is \<open>sampleCount\<close>, \<open>log\<close> collects the lines given to
  \<open>log.Printf\<close>. The result is the log and either the error or the column types.
\<close>

fun sampleLoop ::
  "Config \<Rightarrow> string list \<Rightarrow> readResult list \<Rightarrow> int \<Rightarrow> string list \<Rightarrow> string list
     \<Rightarrow> string list \<times> (error + string list)" where
  "sampleLoop c hs [] n log ts = (log, Inr ts)"
| "sampleLoop c hs (Inl e # rows) n log ts = (log, Inl (ErrReadingRecord e))"
| "sampleLoop c hs (Inr r # rows) n log ts =
     (if length r \<noteq> length hs
      then sampleLoop c hs rows n (log @ [skipWarning (length r) (length hs)]) ts
      else if n + 1 \<ge> MaxSampleSize c then (log, Inr (refineRow c hs ts r))
      else sampleLoop c hs rows (n + 1) log (refineRow c hs ts r))"

definition determineColumnTypes ::
  "Config \<Rightarrow> string list \<Rightarrow> readResult list \<Rightarrow> string list \<times> (error + string list)" where
  "determineColumnTypes c hs rows =
     (if allForced (map (initialType c) hs) then ([], Inr (map (initialType c) hs))
      else sampleLoop c hs rows 0 [] (map (initialType c) hs))"

subsection \<open>The library variant (package \<open>csv2sql\<close>)\<close>

text \<open>
  The sampling loop of the library differs in one branch: on an error of the reader it
  writes a warning (the error, and the record, which is left out here) and goes on with
  the next record. It never returns an error.
\<close>

definition readWarning :: "string \<Rightarrow> string" where
  "readWarning e = ''[determineColumnTypes] Warning: error reading record: '' @ e"

fun sampleLoop_lib ::
  "Config \<Rightarrow> string list \<Rightarrow> readResult list \<Rightarrow> int \<Rightarrow> string list \<Rightarrow> string list
     \<Rightarrow> string list \<times> (error + string list)" where
  "sampleLoop_lib c hs [] n log ts = (log, Inr ts)"
| "sampleLoop_lib c hs (Inl e # rows) n log ts =
     sampleLoop_lib c hs rows n (log @ [readWarning e]) ts"
| "sampleLoop_lib c hs (Inr r # rows) n log ts =
     (if length r \<noteq> length hs
      then sampleLoop_lib c hs rows n (log @ [skipWarning (length r) (length hs)]) ts
      else if n + 1 \<ge> MaxSampleSize c then (log, Inr (refineRow c hs ts r))
      else sampleLoop_lib c hs rows (n + 1) log (refineRow c hs ts r))"

definition determineColumnTypes_lib ::
  "Config \<Rightarrow> string list \<Rightarrow> readResult list \<Rightarrow> string list \<times> (error + string list)" where
  "determineColumnTypes_lib c hs rows =
     (if allForced (map (initialType c) hs) then ([], Inr (map (initialType c) hs))
      else sampleLoop_lib c hs rows 0 [] (map (initialType c) hs))"

section \<open>The statement emitter: \<open>CREATE TABLE\<close>\<close>

text \<open>
  The loop \<open>for i, header := range headers\<close> reads \<open>columnTypes[i]\<close>, which panics when
  \<open>columnTypes\<close> is shorter than \<open>headers\<close>.
\<close>

fun columnDefs :: "string list \<Rightarrow> string list \<Rightarrow> error + string list" where
  "columnDefs [] ts = Inr []"
| "columnDefs (h # hs) [] = Inl PanicIndexOutOfRange"
| "columnDefs (h # hs) (t # ts) =
     (case columnDefs hs ts of
        Inl e \<Rightarrow> Inl e
      | Inr ds \<Rightarrow> Inr (if t = ''SKIP'' then ds else (''  '' @ backquote h @ '' '' @ t) # ds))"

text \<open>The loop that appends the quoted primary keys to \<open>pkColumns\<close>.\<close>

definition pkColumns :: "string list \<Rightarrow> string list" where
  "pkColumns pks = foldl (\<lambda>acc pk. acc @ [backquote pk]) [] pks"

definition tableSuffix :: string where
  "tableSuffix = nl @ '') ENGINE=InnoDB DEFAULT CHARSET=utf8mb4 COLLATE=utf8mb4_unicode_ci;''"

definition withPrimaryKey :: "Config \<Rightarrow> string list \<Rightarrow> string list" where
  "withPrimaryKey c columns =
     (if length (PrimaryKeys c) > 0
      then columns @ [''  PRIMARY KEY ('' @ Join (pkColumns (PrimaryKeys c)) '', '' @ '')'']
      else columns)"

definition generateCreateTable :: "Config \<Rightarrow> string list \<Rightarrow> string list \<Rightarrow> error + string" where
  "generateCreateTable c hs ts =
     (case columnDefs hs ts of
        Inl e \<Rightarrow> Inl e
      | Inr columns \<Rightarrow>
          Inr (''CREATE TABLE '' @ backquote (TableName c) @ '' ('' @ nl
               @ Join (withPrimaryKey c columns) ('','' @ nl) @ tableSuffix))"

text \<open>
  The library variant of \<open>generateCreateTable\<close> (package \<open>csv2sql\<close>) writes a commented
  \<open>DROP TABLE\<close> line first and is the same otherwise.
\<close>

definition generateCreateTable_lib :: "Config \<Rightarrow> string list \<Rightarrow> string list \<Rightarrow> error + string" where
  "generateCreateTable_lib c hs ts =
     (case columnDefs hs ts of
        Inl e \<Rightarrow> Inl e
      | Inr columns \<Rightarrow>
          Inr (''-- DROP TABLE '' @ TableName c @ '';'' @ nl
               @ ''CREATE TABLE '' @ backquote (TableName c) @ '' ('' @ nl
               @ Join (withPrimaryKey c columns) ('','' @ nl) @ tableSuffix))"

section \<open>The row serializer and the \<open>INSERT\<close> statements\<close>

text \<open>
  What the loop over the fields of a record appends to \<open>values\<close> for a column that is not
  skipped: \<open>NULL\<close>, the escaped value, or the escaped value in single quotes.
\<close>

definition escape :: "string \<Rightarrow> string" where
  "escape v =
     ReplaceAll (ReplaceAll v [CHR 0x27] [CHR 0x27, CHR 0x27]) [CHR 0x5C] [CHR 0x5C, CHR 0x5C]"

definition serializeValue :: "Config \<Rightarrow> string \<Rightarrow> string \<Rightarrow> string" where
  "serializeValue c t v =
     (if isNull c (TrimSpace v) then ''NULL''
      else if (t = ''INT'' \<or> t = ''DECIMAL(20,6)'') \<and> ParseFloat (TrimSpace v)
           then escape (TrimSpace v)
           else [CHR 0x27] @ escape (TrimSpace v) @ [CHR 0x27])"

text \<open>
  \<open>for i, value := range record\<close> reads \<open>columnTypes[i]\<close>: a panic when \<open>columnTypes\<close>
  is shorter than the record.
\<close>

fun prepareValues :: "Config \<Rightarrow> string list \<Rightarrow> string list \<Rightarrow> error + string list" where
  "prepareValues c ts [] = Inr []"
| "prepareValues c [] (v # vs) = Inl PanicIndexOutOfRange"
| "prepareValues c (t # ts) (v # vs) =
     (case prepareValues c ts vs of
        Inl e \<Rightarrow> Inl e
      | Inr r \<Rightarrow> Inr (if t = ''SKIP'' then r else serializeValue c t v # r))"

fun insertColumns :: "string list \<Rightarrow> string list \<Rightarrow> error + string list" where
  "insertColumns [] ts = Inr []"
| "insertColumns (h # hs) [] = Inl PanicIndexOutOfRange"
| "insertColumns (h # hs) (t # ts) =
     (case insertColumns hs ts of
        Inl e \<Rightarrow> Inl e
      | Inr cols \<Rightarrow> Inr (if t \<noteq> ''SKIP'' then backquote h # cols else cols))"

definition formatInsertColumns :: "string list \<Rightarrow> string list \<Rightarrow> error + string" where
  "formatInsertColumns hs ts =
     (case insertColumns hs ts of Inl e \<Rightarrow> Inl e | Inr cols \<Rightarrow> Inr (Join cols '', ''))"

definition formatBatchInsert ::
  "Config \<Rightarrow> string list \<Rightarrow> string list \<Rightarrow> string list \<Rightarrow> error + string" where
  "formatBatchInsert c hs ts rows =
     (case formatInsertColumns hs ts of
        Inl e \<Rightarrow> Inl e
      | Inr cols \<Rightarrow>
          Inr (''INSERT INTO '' @ backquote (TableName c) @ '' ('' @ cols @ '') VALUES'' @ nl
               @ Join rows ('','' @ nl) @ '';'' @ nl))"

definition formatSingleInsert ::
  "Config \<Rightarrow> string list \<Rightarrow> string list \<Rightarrow> string list \<Rightarrow> error + string" where
  "formatSingleInsert c hs ts values =
     (case formatInsertColumns hs ts of
        Inl e \<Rightarrow> Inl e
      | Inr cols \<Rightarrow>
          Inr (''INSERT INTO '' @ backquote (TableName c) @ '' ('' @ cols @ '') VALUES (''
               @ Join values '', '' @ '');'' @ nl))"

definition tuple :: "string list \<Rightarrow> string" where
  "tuple values = ''('' @ Join values '', '' @ '')''"

text \<open>
  The main loop of \<open>generateInsertStatements\<close>. \<open>sb\<close> is the \<open>strings.Builder\<close>, kept
  as the list of the strings written to it so far (its content is their concatenation);
  \<open>batchRows\<close> is the buffer. The result is the error, or both at the end of the input.
\<close>

fun insertLoop ::
  "Config \<Rightarrow> string list \<Rightarrow> string list \<Rightarrow> readResult list \<Rightarrow> string list \<Rightarrow> string list
     \<Rightarrow> error + (string list \<times> string list)" where
  "insertLoop c hs ts [] sb batchRows = Inr (sb, batchRows)"
| "insertLoop c hs ts (Inl e # rows) sb batchRows = Inl (ErrReadingRecord e)"
| "insertLoop c hs ts (Inr r # rows) sb batchRows =
     (if length r \<noteq> length hs
      then Inl (ErrColumnCountMismatch (int (length hs)) (int (length r)))
      else case prepareValues c ts r of
        Inl e \<Rightarrow> Inl e
      | Inr values \<Rightarrow>
          if BatchInsert c
          then if int (length (batchRows @ [tuple values])) \<ge> BatchSize c
               then case formatBatchInsert c hs ts (batchRows @ [tuple values]) of
                      Inl e \<Rightarrow> Inl e
                    | Inr stmt \<Rightarrow> insertLoop c hs ts rows (sb @ [stmt]) []
               else insertLoop c hs ts rows sb (batchRows @ [tuple values])
          else case formatSingleInsert c hs ts values of
                 Inl e \<Rightarrow> Inl e
               | Inr stmt \<Rightarrow> insertLoop c hs ts rows (sb @ [stmt]) batchRows)"

text \<open>After the loop the rest of the buffer, if any, is written as a last batch.\<close>

definition flushRest ::
  "Config \<Rightarrow> string list \<Rightarrow> string list \<Rightarrow> string list \<times> string list \<Rightarrow> error + string list" where
  "flushRest c hs ts st =
     (if length (snd st) > 0
      then case formatBatchInsert c hs ts (snd st) of
             Inl e \<Rightarrow> Inl e
           | Inr stmt \<Rightarrow> Inr (fst st @ [stmt])
      else Inr (fst st))"

text \<open>
  The second pass reads the file again from its start, so its input begins with the
  header row when there is one; reading past it fails at the end of the input too.
\<close>

definition skipHeader :: "Config \<Rightarrow> readResult list \<Rightarrow> error + readResult list" where
  "skipHeader c rows =
     (if HasHeader c
      then case rows of
             [] \<Rightarrow> Inl (ErrSkippingHeader ''EOF'')
           | Inl e # rest \<Rightarrow> Inl (ErrSkippingHeader e)
           | Inr h # rest \<Rightarrow> Inr rest
      else Inr rows)"

text \<open>\<open>insertWrites\<close>: the strings written to the builder, in order.\<close>

definition insertWrites ::
  "Config \<Rightarrow> string list \<Rightarrow> string list \<Rightarrow> readResult list \<Rightarrow> error + string list" where
  "insertWrites c hs ts rows =
     (case skipHeader c rows of
        Inl e \<Rightarrow> Inl e
      | Inr dataRows \<Rightarrow>
          (case insertLoop c hs ts dataRows [] [] of
             Inl e \<Rightarrow> Inl e
           | Inr st \<Rightarrow> flushRest c hs ts st))"

definition generateInsertStatements ::
  "Config \<Rightarrow> string list \<Rightarrow> string list \<Rightarrow> readResult list \<Rightarrow> error + string" where
  "generateInsertStatements c hs ts rows =
     (case insertWrites c hs ts rows of Inl e \<Rightarrow> Inl e | Inr sb \<Rightarrow> Inr (concat sb))"

subsection \<open>The second pass of the library variant\<close>

text \<open>
  In the library the options come from \<open>OptsT\<close>: \<open>NoHeader\<close> and \<open>NoBatchInsert\<close> are
  read here as the negations of \<open>HasHeader\<close> and \<open>BatchInsert\<close>. Its loop skips a record
  the reader reports an error for, and a record of the wrong length, with a message; and
  before it serializes a record it tests \<open>record[0]\<close> and, in a record of two fields or
  more, \<open>record[1]\<close>: when they are empty or the NULL literal the record is skipped
  (\<open>Skip empty rows\<close>). \<open>record[0]\<close> panics on a record without fields.
\<close>

definition emptyRow :: "Config \<Rightarrow> string list \<Rightarrow> bool" where
  "emptyRow c r =
     (isNull c (TrimSpace (r ! 0))
      \<and> (if length r \<ge> 2 then isNull c (TrimSpace (r ! 1)) else True))"

fun insertLoop_lib ::
  "Config \<Rightarrow> string list \<Rightarrow> string list \<Rightarrow> readResult list \<Rightarrow> string list \<Rightarrow> string list
     \<Rightarrow> error + (string list \<times> string list)" where
  "insertLoop_lib c hs ts [] sb batchRows = Inr (sb, batchRows)"
| "insertLoop_lib c hs ts (Inl e # rows) sb batchRows = insertLoop_lib c hs ts rows sb batchRows"
| "insertLoop_lib c hs ts (Inr r # rows) sb batchRows =
     (if length r \<noteq> length hs then insertLoop_lib c hs ts rows sb batchRows
      else if r = [] then Inl PanicIndexOutOfRange
      else if emptyRow c r then insertLoop_lib c hs ts rows sb batchRows
      else case prepareValues c ts r of
        Inl e \<Rightarrow> Inl e
      | Inr values \<Rightarrow>
          if BatchInsert c
          then if int (length (batchRows @ [tuple values])) \<ge> BatchSize c
               then case formatBatchInsert c hs ts (batchRows @ [tuple values]) of
                      Inl e \<Rightarrow> Inl e
                    | Inr stmt \<Rightarrow> insertLoop_lib c hs ts rows (sb @ [stmt]) []
               else insertLoop_lib c hs ts rows sb (batchRows @ [tuple values])
          else case formatSingleInsert c hs ts values of
                 Inl e \<Rightarrow> Inl e
               | Inr stmt \<Rightarrow> insertLoop_lib c hs ts rows (sb @ [stmt]) batchRows)"

definition insertWrites_lib ::
  "Config \<Rightarrow> string list \<Rightarrow> string list \<Rightarrow> readResult list \<Rightarrow> error + string list" where
  "insertWrites_lib c hs ts rows =
     (case insertLoop_lib c hs ts (if HasHeader c then drop 1 rows else rows) [] [] of
        Inl e \<Rightarrow> Inl e
      | Inr st \<Rightarrow> flushRest c hs ts st)"

definition generateInsertStatements_lib ::
  "Config \<Rightarrow> string list \<Rightarrow> string list \<Rightarrow> readResult list \<Rightarrow> error + string" where
  "generateInsertStatements_lib c hs ts rows =
     (case insertWrites_lib c hs ts rows of Inl e \<Rightarrow> Inl e | Inr sb \<Rightarrow> Inr (concat sb))"

section \<open>Definitions that state the properties\<close>

text \<open>
  The definitions of this section are not translations of code. They say, in the words
  of the specification, what the theorems below compare the code with.
\<close>

text \<open>
  The sanitizer read character by character: every character outside the class becomes
  an underscore of its own.
\<close>

definition spec_replaceEach :: "string \<Rightarrow> string" where
  "spec_replaceEach s = map (\<lambda>c. if identChar c then c else CHR ''_'') s"

definition spec_sanitize :: "string \<Rightarrow> string" where
  "spec_sanitize name0 =
     ToLower (if leadingMatch (Trim (spec_replaceEach (TrimSpace name0)) ''_'')
              then ''_'' @ Trim (spec_replaceEach (TrimSpace name0)) ''_''
              else Trim (spec_replaceEach (TrimSpace name0)) ''_'')"

text \<open>
  The sanitizer read run by run: of a maximal run of characters outside the class, the
  first one (the one at the start of the string or behind a character of the class)
  becomes an underscore and the others disappear.
\<close>

definition spec_replaceRuns :: "string \<Rightarrow> string" where
  "spec_replaceRuns s =
     concat (map (\<lambda>(c, afterIdent). if identChar c then [c] else if afterIdent then ''_'' else [])
               (zip s (True # map identChar s)))"

definition spec_sanitize_runs :: "string \<Rightarrow> string" where
  "spec_sanitize_runs name0 =
     ToLower (if leadingMatch (Trim (spec_replaceRuns (TrimSpace name0)) ''_'')
              then ''_'' @ Trim (spec_replaceRuns (TrimSpace name0)) ''_''
              else Trim (spec_replaceRuns (TrimSpace name0)) ''_'')"

text \<open>\<open>adjacentOutside s\<close>: two neighbours in \<open>s\<close> are both outside the class.\<close>

fun adjacentOutside :: "string \<Rightarrow> bool" where
  "adjacentOutside (a # b # cs) = ((\<not> identChar a \<and> \<not> identChar b) \<or> adjacentOutside (b # cs))"
| "adjacentOutside cs = False"

text \<open>
  The batching discipline: rows accumulate in a buffer; when the buffer reaches \<open>n\<close> rows
  it is flushed as one batch and cleared; at the end of the rows a buffer that is not
  empty is flushed as the last batch.
\<close>

fun spec_batches :: "nat \<Rightarrow> 'a list \<Rightarrow> 'a list \<Rightarrow> 'a list list" where
  "spec_batches n buf [] = (if buf = [] then [] else [buf])"
| "spec_batches n buf (x # xs) =
     (if length (buf @ [x]) \<ge> n then (buf @ [x]) # spec_batches n [] xs
      else spec_batches n (buf @ [x]) xs)"

text \<open>
  The columns that are kept, as triples of header, type and field in header order, and
  the texts made of them.
\<close>

definition keptColumns :: "string list \<Rightarrow> string list \<Rightarrow> string list \<Rightarrow> (string \<times> string \<times> string) list" where
  "keptColumns hs ts r = filter (\<lambda>(h, t, v). t \<noteq> ''SKIP'') (zip hs (zip ts r))"

definition keptValues :: "Config \<Rightarrow> string list \<Rightarrow> string list \<Rightarrow> string list \<Rightarrow> string list" where
  "keptValues c hs ts r = map (\<lambda>(h, t, v). serializeValue c t v) (keptColumns hs ts r)"

definition batchStatement :: "Config \<Rightarrow> string \<Rightarrow> string list \<Rightarrow> string" where
  "batchStatement c cols rows =
     ''INSERT INTO '' @ backquote (TableName c) @ '' ('' @ cols @ '') VALUES'' @ nl
       @ Join rows ('','' @ nl) @ '';'' @ nl"

definition singleStatement :: "Config \<Rightarrow> string \<Rightarrow> string list \<Rightarrow> string" where
  "singleStatement c cols values =
     ''INSERT INTO '' @ backquote (TableName c) @ '' ('' @ cols @ '') VALUES (''
       @ Join values '', '' @ '');'' @ nl"

definition nullRow :: "Config \<Rightarrow> string list \<Rightarrow> bool" where
  "nullRow c r = list_all (\<lambda>v. isNull c (TrimSpace v)) r"

text \<open>
  \<open>fixedType c h t\<close>: if the column named \<open>h\<close> has a forced type or is in the skip set,
  then \<open>t\<close> is the type it was given at the start.
\<close>

definition fixedType :: "Config \<Rightarrow> string \<Rightarrow> string \<Rightarrow> bool" where
  "fixedType c h t =
     (if ForceTypes c h \<noteq> None \<or> skipped c h then t = initialType c h else True)"

section \<open>The value classifier: what it returns\<close>

text \<open>
  A value that begins with the letter \<open>x\<close> is no integer, no float and no date, so the
  classifier takes its text branch, which looks at the length only.
\<close>

lemma not_number_x:
  "\<not> isInteger (CHR ''x'' # w)" "\<not> isDecimal (CHR ''x'' # w)" "\<not> isDate (CHR ''x'' # w)"
  by (simp_all add: isInteger_def ParseInt_def isDigit_def isDecimal_def ParseFloat_def
      special_def stripSign_def toLowerByte_def readFloat_def readUnsigned_def hasHexPrefix_def
      readBody_def mantChar_def readParts_def mantissaOK_def isDate_def split: list.splits)

lemma refineType_text:
  "refineType c t (CHR ''x'' # w) =
     (if int (length w) + 1 > TextThreshold c then ''TEXT''
      else if int (length w) + 1 > VarcharLength c
           then ''VARCHAR('' @ showInt (((int (length w) + 1) div 50 + 1) * 50) @ '')''
           else ''VARCHAR('' @ showInt (VarcharLength c) @ '')'')"
  by (simp add: refineType_def not_number_x Let_def add.commute)

lemma replicate_x:
  "0 < n \<Longrightarrow> replicate n (CHR ''x'') = CHR ''x'' # replicate (n - 1) (CHR ''x'')"
  by (cases n) simp_all

lemma ReplaceAll_byte:
  "ReplaceAll s [a] new = concat (map (\<lambda>c. if c = a then new else [c]) s)"
  by (induction s) simp_all

lemma escape_each:
  "escape v = concat (map (\<lambda>c. if c = CHR 0x27 then [CHR 0x27, CHR 0x27]
                              else if c = CHR 0x5C then [CHR 0x5C, CHR 0x5C] else [c]) v)"
  by (induction v) (simp_all add: escape_def ReplaceAll_byte)

text \<open>
  Claim C1. The serializer is claimed to emit the escaped value without quotes exactly
  when the column type is \<open>INT\<close>, \<open>BIGINT\<close> or \<open>DECIMAL(20,6)\<close> and the trimmed value
  parses as a float. The escaping is as claimed: every single quote and every backslash
  of the trimmed value is doubled, and nothing else changes. For the types \<open>INT\<close> and
  \<open>DECIMAL(20,6)\<close> the quoting is as claimed too. But the code tests the type against
  these two only: in a \<open>BIGINT\<close> column, the type the classifier gives to integers,
  every value that is not NULL is emitted in single quotes. For the value \<open>42\<close>: the
  classifier answers \<open>BIGINT\<close>, the value parses as a float, and the serializer emits it
  quoted.
\<close>

theorem serializeValue_bigint_quoted:
  "escape v = concat (map (\<lambda>c. if c = CHR 0x27 then [CHR 0x27, CHR 0x27]
                              else if c = CHR 0x5C then [CHR 0x5C, CHR 0x5C] else [c]) v)
   \<and> serializeValue c ''INT'' v =
       (if isNull c (TrimSpace v) then ''NULL''
        else if ParseFloat (TrimSpace v) then escape (TrimSpace v)
        else [CHR 0x27] @ escape (TrimSpace v) @ [CHR 0x27])
   \<and> serializeValue c ''DECIMAL(20,6)'' v =
       (if isNull c (TrimSpace v) then ''NULL''
        else if ParseFloat (TrimSpace v) then escape (TrimSpace v)
        else [CHR 0x27] @ escape (TrimSpace v) @ [CHR 0x27])
   \<and> serializeValue c ''BIGINT'' v =
       (if isNull c (TrimSpace v) then ''NULL'' else [CHR 0x27] @ escape (TrimSpace v) @ [CHR 0x27])
   \<and> refineType DefaultConfig ''TEXT'' ''42'' = ''BIGINT''
   \<and> ParseFloat ''42''
   \<and> prepareValues DefaultConfig [''BIGINT''] [''42''] = Inr [[CHR 0x27] @ ''42'' @ [CHR 0x27]]"
proof -
  have "serializeValue c ''INT'' v =
       (if isNull c (TrimSpace v) then ''NULL''
        else if ParseFloat (TrimSpace v) then escape (TrimSpace v)
        else [CHR 0x27] @ escape (TrimSpace v) @ [CHR 0x27])"
    by (simp add: serializeValue_def)
  moreover have "serializeValue c ''DECIMAL(20,6)'' v =
       (if isNull c (TrimSpace v) then ''NULL''
        else if ParseFloat (TrimSpace v) then escape (TrimSpace v)
        else [CHR 0x27] @ escape (TrimSpace v) @ [CHR 0x27])"
    by (simp add: serializeValue_def)
  moreover have "serializeValue c ''BIGINT'' v =
     (if isNull c (TrimSpace v) then ''NULL'' else [CHR 0x27] @ escape (TrimSpace v) @ [CHR 0x27])"
    by (simp add: serializeValue_def)
  moreover have "refineType DefaultConfig ''TEXT'' ''42'' = ''BIGINT''"
    by code_simp
  moreover have "ParseFloat ''42''"
    by code_simp
  moreover have "prepareValues DefaultConfig [''BIGINT''] [''42''] = Inr [[CHR 0x27] @ ''42'' @ [CHR 0x27]]"
    by code_simp
  ultimately show ?thesis
    using escape_each [of v] by blast
qed

text \<open>
  Claim C2. Type inference is claimed to be monotonic: \<open>refineType\<close> never returns a
  type narrower than the current one. The code never reads the current type, so the
  result is the class of the last value alone: \<open>TEXT\<close> becomes \<open>BIGINT\<close>,
  \<open>DECIMAL(20,6)\<close> becomes \<open>BIGINT\<close>, \<open>DATETIME\<close> becomes \<open>DATE\<close>, a widened
  \<open>VARCHAR(300)\<close> shrinks to \<open>VARCHAR(255)\<close>, and a column that holds \<open>3.14\<close> and then
  \<open>2\<close> resolves to \<open>BIGINT\<close>.
\<close>

theorem refineType_ignores_current_type:
  "refineType c t v = refineType c t' v
   \<and> refineType DefaultConfig ''TEXT'' ''1'' = ''BIGINT''
   \<and> refineType DefaultConfig ''DECIMAL(20,6)'' ''2'' = ''BIGINT''
   \<and> refineType DefaultConfig ''DATETIME'' ''2024-01-05'' = ''DATE''
   \<and> refineType DefaultConfig ''VARCHAR(300)'' ''abc'' = ''VARCHAR(255)''
   \<and> determineColumnTypes DefaultConfig [''price''] [Inr [''3.14''], Inr [''2'']]
       = ([], Inr [''BIGINT''])"
proof -
  have "refineType c t v = refineType c t' v"
    by (simp add: refineType_def)
  moreover have "refineType DefaultConfig ''TEXT'' ''1'' = ''BIGINT''"
    by code_simp
  moreover have "refineType DefaultConfig ''DECIMAL(20,6)'' ''2'' = ''BIGINT''"
    by code_simp
  moreover have "refineType DefaultConfig ''DATETIME'' ''2024-01-05'' = ''DATE''"
    by code_simp
  moreover have "refineType DefaultConfig ''VARCHAR(300)'' ''abc'' = ''VARCHAR(255)''"
    by code_simp
  moreover have "determineColumnTypes DefaultConfig [''price''] [Inr [''3.14''], Inr [''2'']]
       = ([], Inr [''BIGINT''])"
    by code_simp
  ultimately show ?thesis by blast
qed

text \<open>
  Claim C3. The widened capacity is claimed to be \<open>ceil(L/50)*50\<close>, so \<open>L\<close> itself for
  a multiple of 50, and \<open>TEXT\<close> is claimed to replace a capacity above 65535. For a text
  of length \<open>L\<close> above \<open>VarcharLength\<close> and not above the text threshold the code
  computes \<open>(L/50 + 1) * 50\<close>, compares \<open>L\<close> with the configured \<open>VarcharLength\<close> and
  not with the capacity reached, and has no bound: a text of 300 characters gives
  \<open>VARCHAR(350)\<close>, and with a text threshold of 100000 a text of 70000 characters gives
  \<open>VARCHAR(70050)\<close>.
\<close>

theorem refineType_capacity_evaluated:
  "refineType c t (CHR ''x'' # w) =
     (if int (length w) + 1 > TextThreshold c then ''TEXT''
      else if int (length w) + 1 > VarcharLength c
           then ''VARCHAR('' @ showInt (((int (length w) + 1) div 50 + 1) * 50) @ '')''
           else ''VARCHAR('' @ showInt (VarcharLength c) @ '')'')
   \<and> refineType DefaultConfig t (replicate 300 (CHR ''x'')) = ''VARCHAR(350)''
   \<and> refineType (DefaultConfig\<lparr>TextThreshold := 100000\<rparr>) t (replicate 70000 (CHR ''x''))
       = ''VARCHAR(70050)''"
proof -
  have s1: "showInt 350 = ''350''"
    by code_simp
  have s2: "showInt 70050 = ''70050''"
    by code_simp
  have "refineType DefaultConfig t (replicate 300 (CHR ''x'')) = ''VARCHAR(350)''"
    by (simp add: replicate_x [of 300] refineType_text DefaultConfig_def s1)
  moreover have "refineType (DefaultConfig\<lparr>TextThreshold := 100000\<rparr>) t (replicate 70000 (CHR ''x''))
       = ''VARCHAR(70050)''"
    by (simp add: replicate_x [of 70000] refineType_text DefaultConfig_def s2)
  ultimately show ?thesis
    using refineType_text [of c t w] by blast
qed

section \<open>The column type resolver: forced and skipped columns\<close>

lemma refineCell_fixed: "fixedType c h t \<Longrightarrow> fixedType c h (refineCell c h t v)"
  by (auto simp: fixedType_def refineCell_def initialType_def split: option.splits if_splits)

lemma refineRow_fixed:
  "list_all2 (fixedType c) hs ts \<Longrightarrow> list_all2 (fixedType c) hs (refineRow c hs ts r)"
proof (induction c hs ts r rule: refineRow.induct)
  case (1 c h hs t ts v vs)
  then show ?case by (simp add: refineCell_fixed)
qed simp_all

lemma sampleLoop_fixed:
  "list_all2 (fixedType c) hs ts \<Longrightarrow> sampleLoop c hs rows n log ts = (log', Inr ts') \<Longrightarrow>
   list_all2 (fixedType c) hs ts'"
proof (induction c hs rows n log ts rule: sampleLoop.induct)
  case (1 c hs n log ts)
  then show ?case by simp
next
  case (2 c hs e rows n log ts)
  then show ?case by simp
next
  case (3 c hs r rows n log ts)
  show ?case
  proof (cases "length r \<noteq> length hs")
    case True
    with 3 show ?thesis by simp
  next
    case False
    note len = this
    have inv: "list_all2 (fixedType c) hs (refineRow c hs ts r)"
      using "3.prems"(1) by (rule refineRow_fixed)
    show ?thesis
    proof (cases "n + 1 \<ge> MaxSampleSize c")
      case True
      with len "3.prems"(2) have "ts' = refineRow c hs ts r" by simp
      with inv show ?thesis by simp
    next
      case False
      with len "3.prems"(2)
      have "sampleLoop c hs rows (n + 1) log (refineRow c hs ts r) = (log', Inr ts')" by simp
      with "3.IH"(2) len False inv show ?thesis by simp
    qed
  qed
qed

lemma initial_fixed: "list_all2 (fixedType c) hs (map (initialType c) hs)"
  by (induction hs) (simp_all add: fixedType_def)

lemma determineColumnTypes_fixed:
  assumes "determineColumnTypes c hs rows = (log, Inr ts)"
  shows "list_all2 (fixedType c) hs ts"
proof (cases "allForced (map (initialType c) hs)")
  case True
  with assms have "ts = map (initialType c) hs"
    by (simp add: determineColumnTypes_def)
  then show ?thesis by (simp add: initial_fixed)
next
  case False
  with assms have "sampleLoop c hs rows 0 [] (map (initialType c) hs) = (log, Inr ts)"
    by (simp add: determineColumnTypes_def)
  then show ?thesis
    by (rule sampleLoop_fixed [OF initial_fixed])
qed

text \<open>
  Claim C4, as stated, says that a column that is neither forced nor skipped starts at
  \<open>VARCHAR(VarcharLength)\<close>. In the code it starts at \<open>TEXT\<close>: with the default
  configuration the column \<open>name\<close> is neither forced nor skipped, and its first type is
  \<open>TEXT\<close>, not \<open>VARCHAR(255)\<close>.
\<close>

theorem initial_type_is_text_counterexample:
  "ForceTypes DefaultConfig ''name'' = None \<and> \<not> skipped DefaultConfig ''name''
   \<and> initialType DefaultConfig ''name'' = ''TEXT''
   \<and> initialType DefaultConfig ''name'' \<noteq> ''VARCHAR('' @ showInt (VarcharLength DefaultConfig) @ '')''"
  by (simp add: DefaultConfig_def skipped_def initialType_def)

text \<open>
  Claim C4, amended. Whenever the resolver returns types, there is one per header, and
  for every column: a forced type is the first type and the returned type, whatever was
  sampled; a column that is not forced and is in the skip set starts as \<open>SKIP\<close> and is
  returned as \<open>SKIP\<close>; any other column starts at \<open>TEXT\<close>.
\<close>

theorem forced_and_skipped_types_survive_sampling:
  assumes "determineColumnTypes c hs rows = (log, Inr ts)"
  shows "length ts = length hs
     \<and> (\<forall>i < length hs.
          (case ForceTypes c (hs ! i) of
             Some forced \<Rightarrow> initialType c (hs ! i) = forced \<and> ts ! i = forced
           | None \<Rightarrow>
               if skipped c (hs ! i)
               then initialType c (hs ! i) = ''SKIP'' \<and> ts ! i = ''SKIP''
               else initialType c (hs ! i) = ''TEXT''))"
proof -
  have inv: "list_all2 (fixedType c) hs ts"
    using assms by (rule determineColumnTypes_fixed)
  then have len: "length ts = length hs"
    by (simp add: list_all2_lengthD)
  have "\<And>i. i < length hs \<Longrightarrow>
          (case ForceTypes c (hs ! i) of
             Some forced \<Rightarrow> initialType c (hs ! i) = forced \<and> ts ! i = forced
           | None \<Rightarrow>
               if skipped c (hs ! i)
               then initialType c (hs ! i) = ''SKIP'' \<and> ts ! i = ''SKIP''
               else initialType c (hs ! i) = ''TEXT'')"
  proof -
    fix i assume i: "i < length hs"
    with inv have "fixedType c (hs ! i) (ts ! i)"
      by (simp add: list_all2_conv_all_nth)
    then show "(case ForceTypes c (hs ! i) of
             Some forced \<Rightarrow> initialType c (hs ! i) = forced \<and> ts ! i = forced
           | None \<Rightarrow>
               if skipped c (hs ! i)
               then initialType c (hs ! i) = ''SKIP'' \<and> ts ! i = ''SKIP''
               else initialType c (hs ! i) = ''TEXT'')"
      by (auto simp: fixedType_def initialType_def split: option.splits if_splits)
  qed
  with len show ?thesis by blast
qed

text \<open>
  A run of the resolver: \<open>id\<close> is forced to \<open>INT AUTO_INCREMENT\<close> and keeps that type
  although its sampled value is a text, \<open>internal_code\<close> is skipped, and \<open>name\<close>, which
  starts at \<open>TEXT\<close>, is refined by its value.
\<close>

theorem forced_and_skipped_types_survive_sampling_witness:
  "determineColumnTypes
     (DefaultConfig\<lparr>ForceTypes := [''id'' \<mapsto> ''INT AUTO_INCREMENT''],
                    SkipColumns := [''internal_code'' \<mapsto> True]\<rparr>)
     [''id'', ''internal_code'', ''name''] [Inr [''abc'', ''x'', ''1.5'']]
     = ([], Inr [''INT AUTO_INCREMENT'', ''SKIP'', ''DECIMAL(20,6)''])
   \<and> length [''INT AUTO_INCREMENT'', ''SKIP'', ''DECIMAL(20,6)'']
       = length [''id'', ''internal_code'', ''name'']
   \<and> initialType (DefaultConfig\<lparr>ForceTypes := [''id'' \<mapsto> ''INT AUTO_INCREMENT''],
                    SkipColumns := [''internal_code'' \<mapsto> True]\<rparr>) ''id'' = ''INT AUTO_INCREMENT''
   \<and> initialType (DefaultConfig\<lparr>ForceTypes := [''id'' \<mapsto> ''INT AUTO_INCREMENT''],
                    SkipColumns := [''internal_code'' \<mapsto> True]\<rparr>) ''internal_code'' = ''SKIP''
   \<and> initialType (DefaultConfig\<lparr>ForceTypes := [''id'' \<mapsto> ''INT AUTO_INCREMENT''],
                    SkipColumns := [''internal_code'' \<mapsto> True]\<rparr>) ''name'' = ''TEXT''"
proof -
  let ?c = "DefaultConfig\<lparr>ForceTypes := [''id'' \<mapsto> ''INT AUTO_INCREMENT''],
                    SkipColumns := [''internal_code'' \<mapsto> True]\<rparr>"
  let ?hs = "[''id'', ''internal_code'', ''name'']"
  let ?ts = "[''INT AUTO_INCREMENT'', ''SKIP'', ''DECIMAL(20,6)'']"
  have run: "determineColumnTypes ?c ?hs [Inr [''abc'', ''x'', ''1.5'']] = ([], Inr ?ts)"
    by code_simp
  note t = forced_and_skipped_types_survive_sampling [OF run]
  from t have len: "length ?ts = length ?hs"
    by blast
  from t have at: "\<And>i. i < length ?hs \<Longrightarrow>
          (case ForceTypes ?c (?hs ! i) of
             Some forced \<Rightarrow> initialType ?c (?hs ! i) = forced \<and> ?ts ! i = forced
           | None \<Rightarrow>
               if skipped ?c (?hs ! i)
               then initialType ?c (?hs ! i) = ''SKIP'' \<and> ?ts ! i = ''SKIP''
               else initialType ?c (?hs ! i) = ''TEXT'')"
    by blast
  have i0: "initialType ?c ''id'' = ''INT AUTO_INCREMENT''"
    using at [of 0] by (simp add: DefaultConfig_def)
  have i1: "initialType ?c ''internal_code'' = ''SKIP''"
    using at [of 1] by (simp add: DefaultConfig_def skipped_def)
  have i2: "initialType ?c ''name'' = ''TEXT''"
    using at [of 2] by (simp add: DefaultConfig_def skipped_def)
  from run len i0 i1 i2 show ?thesis
    by blast
qed

section \<open>Rows of the wrong length\<close>

lemma sampleLoop_log:
  "sampleLoop c hs rows n log ts
     = (log @ fst (sampleLoop c hs rows n [] ts), snd (sampleLoop c hs rows n [] ts))"
proof (induction rows arbitrary: n log ts)
  case Nil
  then show ?case by simp
next
  case (Cons row rows)
  show ?case
  proof (cases row)
    case (Inl e)
    then show ?thesis by simp
  next
    case (Inr r)
    show ?thesis
    proof (cases "length r \<noteq> length hs")
      case True
      have a: "sampleLoop c hs rows n (log @ [skipWarning (length r) (length hs)]) ts
          = ((log @ [skipWarning (length r) (length hs)]) @ fst (sampleLoop c hs rows n [] ts),
             snd (sampleLoop c hs rows n [] ts))"
        by (rule Cons.IH)
      have b: "sampleLoop c hs rows n [skipWarning (length r) (length hs)] ts
          = ([skipWarning (length r) (length hs)] @ fst (sampleLoop c hs rows n [] ts),
             snd (sampleLoop c hs rows n [] ts))"
        by (rule Cons.IH)
      show ?thesis using Inr True a b by simp
    next
      case False
      have a: "sampleLoop c hs rows (n + 1) log (refineRow c hs ts r)
          = (log @ fst (sampleLoop c hs rows (n + 1) [] (refineRow c hs ts r)),
             snd (sampleLoop c hs rows (n + 1) [] (refineRow c hs ts r)))"
        by (rule Cons.IH)
      show ?thesis using Inr False a by simp
    qed
  qed
qed

lemma sampleLoop_skips_mismatch:
  assumes "length r \<noteq> length hs"
  shows "snd (sampleLoop c hs (pre @ Inr r # post) n log ts)
           = snd (sampleLoop c hs (pre @ post) n log ts)"
proof (induction pre arbitrary: n log ts)
  case Nil
  have "snd (sampleLoop c hs post n (log @ [skipWarning (length r) (length hs)]) ts)
          = snd (sampleLoop c hs post n [] ts)"
    by (subst sampleLoop_log) simp
  moreover have "snd (sampleLoop c hs post n log ts) = snd (sampleLoop c hs post n [] ts)"
    by (subst sampleLoop_log) simp
  ultimately show ?case using assms by simp
next
  case (Cons row pre)
  show ?case
  proof (cases row)
    case (Inl e)
    then show ?thesis by simp
  next
    case (Inr p)
    then show ?thesis by (simp add: Cons.IH)
  qed
qed

lemma insertLoop_mismatch_fails:
  assumes "length r \<noteq> length hs"
  shows "\<exists>e. insertLoop c hs ts (pre @ Inr r # post) sb buf = Inl e"
proof (induction pre arbitrary: sb buf)
  case Nil
  then show ?case using assms by simp
next
  case (Cons row pre)
  show ?case
  proof (cases row)
    case (Inl e)
    then show ?thesis by simp
  next
    case (Inr p)
    then show ?thesis by (simp add: Cons.IH split: sum.splits)
  qed
qed

text \<open>
  The two loops as they are written, for a record \<open>r\<close> that the reader returns without
  an error and whose length differs from the number of headers: the sampling loop goes
  on with the next row in the same state, one warning added to the log, and the
  serializing loop returns the column count error.
\<close>

lemma row_shape_mismatch_branches:
  assumes "length r \<noteq> length hs"
  shows "sampleLoop c hs (Inr r # rows) n log ts
           = sampleLoop c hs rows n (log @ [skipWarning (length r) (length hs)]) ts
     \<and> snd (determineColumnTypes c hs (pre @ Inr r # post))
           = snd (determineColumnTypes c hs (pre @ post))
     \<and> insertLoop c hs ts (Inr r # rows) sb buf
           = Inl (ErrColumnCountMismatch (int (length hs)) (int (length r)))
     \<and> (if skipHeader c input = Inr (pre @ Inr r # post)
         then \<exists>e. generateInsertStatements c hs ts input = Inl e else True)"
proof -
  have "sampleLoop c hs (Inr r # rows) n log ts
           = sampleLoop c hs rows n (log @ [skipWarning (length r) (length hs)]) ts"
    using assms by simp
  moreover have "snd (determineColumnTypes c hs (pre @ Inr r # post))
           = snd (determineColumnTypes c hs (pre @ post))"
    using assms by (simp add: determineColumnTypes_def sampleLoop_skips_mismatch)
  moreover have "insertLoop c hs ts (Inr r # rows) sb buf
           = Inl (ErrColumnCountMismatch (int (length hs)) (int (length r)))"
    using assms by simp
  moreover have "if skipHeader c input = Inr (pre @ Inr r # post)
         then \<exists>e. generateInsertStatements c hs ts input = Inl e else True"
  proof (cases "skipHeader c input = Inr (pre @ Inr r # post)")
    case True
    from insertLoop_mismatch_fails [OF assms, of c ts pre post "[]" "[]"]
    obtain e where "insertLoop c hs ts (pre @ Inr r # post) [] [] = Inl e" by blast
    with True show ?thesis
      by (simp add: generateInsertStatements_def insertWrites_def)
  next
    case False
    then show ?thesis by simp
  qed
  ultimately show ?thesis by blast
qed

text \<open>
  With the reader as \<open>Convert\<close> makes it, no record of another length comes without an
  error, so the sampling loop never takes its skipping branch: it logs nothing.
\<close>

lemma sampleLoop_checked_no_warning:
  "fst (sampleLoop c hs (map (readChecked (length hs)) recs) n log ts) = log"
proof (induction recs arbitrary: n ts)
  case Nil
  then show ?case by simp
next
  case (Cons r recs)
  show ?case
  proof (cases "length r = length hs")
    case True
    then show ?thesis
      using Cons.IH by (simp add: readChecked_def)
  next
    case False
    then show ?thesis
      by (simp add: readChecked_def)
  qed
qed

text \<open>
  Claim C5. A row of the wrong length is claimed to be skipped with a warning while the
  types are sampled, and to be fatal only while the rows are serialized. The sampling
  loop has the branch for it, but the branch is behind the test of the reader's error,
  and the reader reports such a row as an error: for the file with the header
  \<open>id,name\<close> and the rows \<open>1,a\<close>, \<open>7\<close> and \<open>2.5,b\<close>, the resolver returns the error of
  reading a record and no types, and for no file does it log a skipped row. The
  library's resolver skips the row on that error and resolves the types. The second
  pass returns an error for the row, as claimed.
\<close>

theorem short_row_aborts_sampling:
  "map (readChecked 2) [[''1'', ''a''], [''7''], [''2.5'', ''b'']]
     = [Inr [''1'', ''a''], Inl ErrFieldCount, Inr [''2.5'', ''b'']]
   \<and> determineColumnTypes DefaultConfig [''id'', ''name'']
        (map (readChecked 2) [[''1'', ''a''], [''7''], [''2.5'', ''b'']])
       = ([], Inl (ErrReadingRecord ErrFieldCount))
   \<and> fst (determineColumnTypes c hs (map (readChecked (length hs)) recs)) = []
   \<and> determineColumnTypes_lib DefaultConfig [''id'', ''name'']
        (map (readChecked 2) [[''1'', ''a''], [''7''], [''2.5'', ''b'']])
       = ([readWarning ErrFieldCount], Inr [''DECIMAL(20,6)'', ''VARCHAR(255)''])
   \<and> generateInsertStatements DefaultConfig [''id'', ''name''] [''DECIMAL(20,6)'', ''VARCHAR(255)'']
        (Inr [''id'', ''name''] # map (readChecked 2) [[''1'', ''a''], [''7''], [''2.5'', ''b'']])
       = Inl (ErrReadingRecord ErrFieldCount)"
proof -
  have rd: "map (readChecked 2) [[''1'', ''a''], [''7''], [''2.5'', ''b'']]
     = [Inr [''1'', ''a''], Inl ErrFieldCount, Inr [''2.5'', ''b'']]"
    by (simp add: readChecked_def)
  have a: "determineColumnTypes DefaultConfig [''id'', ''name'']
        [Inr [''1'', ''a''], Inl ErrFieldCount, Inr [''2.5'', ''b'']]
       = ([], Inl (ErrReadingRecord ErrFieldCount))"
    by code_simp
  have b: "fst (determineColumnTypes c hs (map (readChecked (length hs)) recs)) = []"
    by (simp add: determineColumnTypes_def sampleLoop_checked_no_warning)
  have l: "determineColumnTypes_lib DefaultConfig [''id'', ''name'']
        [Inr [''1'', ''a''], Inl ErrFieldCount, Inr [''2.5'', ''b'']]
       = ([readWarning ErrFieldCount], Inr [''DECIMAL(20,6)'', ''VARCHAR(255)''])"
    by code_simp
  have s: "generateInsertStatements DefaultConfig [''id'', ''name''] [''DECIMAL(20,6)'', ''VARCHAR(255)'']
        (Inr [''id'', ''name''] # [Inr [''1'', ''a''], Inl ErrFieldCount, Inr [''2.5'', ''b'']])
       = Inl (ErrReadingRecord ErrFieldCount)"
    by code_simp
  from a b l s show ?thesis
    unfolding rd by blast
qed

section \<open>Skipped columns and the primary key\<close>

lemma insertColumns_kept:
  assumes "length ts = length hs" and "length r = length hs"
  shows "insertColumns hs ts = Inr (map (\<lambda>(h, t, v). backquote h) (keptColumns hs ts r))"
proof -
  from assms have "length hs = length ts" and "length ts = length r"
    by simp_all
  then show ?thesis
  proof (induction hs ts r rule: list_induct3)
    case Nil
    then show ?case by (simp add: keptColumns_def)
  next
    case (Cons h hs t ts v vs)
    then show ?case by (simp add: keptColumns_def)
  qed
qed

lemma prepareValues_kept:
  assumes "length ts = length hs" and "length r = length hs"
  shows "prepareValues c ts r = Inr (keptValues c hs ts r)"
proof -
  from assms have "length hs = length ts" and "length ts = length r"
    by simp_all
  then show ?thesis
  proof (induction hs ts r rule: list_induct3)
    case Nil
    then show ?case by (simp add: keptColumns_def keptValues_def)
  next
    case (Cons h hs t ts v vs)
    then show ?case by (simp add: keptColumns_def keptValues_def)
  qed
qed

lemma formatInsertColumns_total:
  assumes "length ts = length hs"
  shows "\<exists>cols. formatInsertColumns hs ts = Inr cols"
proof -
  have "length (map (\<lambda>h. []) hs) = length hs"
    by simp
  with assms have "insertColumns hs ts
      = Inr (map (\<lambda>(h, t, v). backquote h) (keptColumns hs ts (map (\<lambda>h. []) hs)))"
    by (rule insertColumns_kept)
  then show ?thesis
    by (simp add: formatInsertColumns_def)
qed

lemma foldl_snoc_map: "foldl (\<lambda>acc x. acc @ [f x]) a xs = a @ map f xs"
  by (induction xs arbitrary: a) auto

lemma pkColumns_map: "pkColumns pks = map (\<lambda>pk. [CHR 0x60] @ pk @ [CHR 0x60]) pks"
  by (simp add: pkColumns_def foldl_snoc_map backquote_def)

lemma columnDefs_kept:
  assumes "length ts = length hs" and "length r = length hs"
  shows "columnDefs hs ts
           = Inr (map (\<lambda>(h, t, v). ''  '' @ backquote h @ '' '' @ t) (keptColumns hs ts r))"
proof -
  from assms have "length hs = length ts" and "length ts = length r"
    by simp_all
  then show ?thesis
  proof (induction hs ts r rule: list_induct3)
    case Nil
    then show ?case by (simp add: keptColumns_def)
  next
    case (Cons h hs t ts v vs)
    then show ?case by (simp add: keptColumns_def)
  qed
qed

lemma columnDefs_total:
  assumes "length ts = length hs"
  shows "\<exists>columns. columnDefs hs ts = Inr columns"
proof -
  have "length (map (\<lambda>h. []) hs) = length hs"
    by simp
  with assms have "columnDefs hs ts
      = Inr (map (\<lambda>(h, t, v). ''  '' @ backquote h @ '' '' @ t)
               (keptColumns hs ts (map (\<lambda>h. []) hs)))"
    by (rule columnDefs_kept)
  then show ?thesis by simp
qed

text \<open>
  Claim C8. With one type and one field per header, let the kept columns be the triples
  of header, type and field whose type is not \<open>SKIP\<close>, in header order. Then the column
  definitions of \<open>CREATE TABLE\<close>, the column list of \<open>INSERT\<close> and the values of the row
  are each made of the kept columns, one entry per kept column and in that order: a
  skipped column gives none of the three, and the k-th name of the column list and the
  k-th value of every tuple belong to the same column.
\<close>

theorem skipped_columns_absent:
  assumes "length ts = length hs" and "length r = length hs"
  shows "list_all (\<lambda>(h, t, v). t \<noteq> ''SKIP'') (keptColumns hs ts r)
     \<and> columnDefs hs ts
         = Inr (map (\<lambda>(h, t, v). ''  '' @ backquote h @ '' '' @ t) (keptColumns hs ts r))
     \<and> generateCreateTable c hs ts
         = Inr (''CREATE TABLE '' @ backquote (TableName c) @ '' ('' @ nl
                @ Join (withPrimaryKey c
                          (map (\<lambda>(h, t, v). ''  '' @ backquote h @ '' '' @ t) (keptColumns hs ts r)))
                    ('','' @ nl)
                @ tableSuffix)
     \<and> formatInsertColumns hs ts
         = Inr (Join (map (\<lambda>(h, t, v). backquote h) (keptColumns hs ts r)) '', '')
     \<and> prepareValues c ts r
         = Inr (map (\<lambda>(h, t, v). serializeValue c t v) (keptColumns hs ts r))"
proof -
  have "list_all (\<lambda>(h, t, v). t \<noteq> ''SKIP'') (keptColumns hs ts r)"
    by (auto simp: keptColumns_def list_all_iff)
  moreover have defs: "columnDefs hs ts
         = Inr (map (\<lambda>(h, t, v). ''  '' @ backquote h @ '' '' @ t) (keptColumns hs ts r))"
    using assms by (rule columnDefs_kept)
  moreover from defs have "generateCreateTable c hs ts
         = Inr (''CREATE TABLE '' @ backquote (TableName c) @ '' ('' @ nl
                @ Join (withPrimaryKey c
                          (map (\<lambda>(h, t, v). ''  '' @ backquote h @ '' '' @ t) (keptColumns hs ts r)))
                    ('','' @ nl)
                @ tableSuffix)"
    by (simp add: generateCreateTable_def)
  moreover have "formatInsertColumns hs ts
         = Inr (Join (map (\<lambda>(h, t, v). backquote h) (keptColumns hs ts r)) '', '')"
    using insertColumns_kept [OF assms] by (simp add: formatInsertColumns_def)
  moreover have "prepareValues c ts r
         = Inr (map (\<lambda>(h, t, v). serializeValue c t v) (keptColumns hs ts r))"
    using prepareValues_kept [OF assms, of c] by (simp add: keptValues_def)
  ultimately show ?thesis by blast
qed

text \<open>
  Three columns, the second skipped: the table has the columns \<open>id\<close> and \<open>price\<close>, the
  column list names them, each between two backquote characters, and the row gives their
  two values.
\<close>

theorem skipped_columns_absent_witness:
  "length [''INT'', ''SKIP'', ''DECIMAL(20,6)''] = length [''id'', ''internal_code'', ''price'']
   \<and> length [''7'', ''secret'', ''19.99''] = length [''id'', ''internal_code'', ''price'']
   \<and> keptColumns [''id'', ''internal_code'', ''price''] [''INT'', ''SKIP'', ''DECIMAL(20,6)'']
        [''7'', ''secret'', ''19.99'']
       = [(''id'', ''INT'', ''7''), (''price'', ''DECIMAL(20,6)'', ''19.99'')]
   \<and> columnDefs [''id'', ''internal_code'', ''price''] [''INT'', ''SKIP'', ''DECIMAL(20,6)'']
       = Inr [''  '' @ [CHR 0x60] @ ''id'' @ [CHR 0x60] @ '' INT'',
              ''  '' @ [CHR 0x60] @ ''price'' @ [CHR 0x60] @ '' DECIMAL(20,6)'']
   \<and> formatInsertColumns [''id'', ''internal_code'', ''price''] [''INT'', ''SKIP'', ''DECIMAL(20,6)'']
       = Inr ([CHR 0x60] @ ''id'' @ [CHR 0x60] @ '', '' @ [CHR 0x60] @ ''price'' @ [CHR 0x60])
   \<and> prepareValues DefaultConfig [''INT'', ''SKIP'', ''DECIMAL(20,6)''] [''7'', ''secret'', ''19.99'']
       = Inr [''7'', ''19.99'']"
proof -
  let ?hs = "[''id'', ''internal_code'', ''price'']"
  let ?ts = "[''INT'', ''SKIP'', ''DECIMAL(20,6)'']"
  let ?r = "[''7'', ''secret'', ''19.99'']"
  have l1: "length ?ts = length ?hs" and l2: "length ?r = length ?hs"
    by simp_all
  have kept: "keptColumns ?hs ?ts ?r = [(''id'', ''INT'', ''7''), (''price'', ''DECIMAL(20,6)'', ''19.99'')]"
    by (simp add: keptColumns_def)
  have v1: "serializeValue DefaultConfig ''INT'' ''7'' = ''7''"
    by code_simp
  have v2: "serializeValue DefaultConfig ''DECIMAL(20,6)'' ''19.99'' = ''19.99''"
    by code_simp
  note t = skipped_columns_absent [OF l1 l2, of DefaultConfig]
  from t kept v1 v2 l1 l2 show ?thesis
    by (simp add: backquote_def)
qed

text \<open>
  Claim C10. With a primary-key list that is not empty and one type per header, the
  text of \<open>CREATE TABLE\<close>, in both variants, ends with the column definitions followed by
  one more entry: \<open>PRIMARY KEY\<close> and, in parentheses and separated by a comma and a
  space, the configured names in the configured order, each one unchanged between two
  backquote characters (the byte \<open>0x60\<close>). The entry is made of the configured names
  alone, whatever the headers, the types and the skip set are.
\<close>

theorem primary_key_clause_unvalidated:
  assumes "PrimaryKeys c \<noteq> []" and "length ts = length hs"
  shows "\<exists>columns.
           columnDefs hs ts = Inr columns
         \<and> generateCreateTable c hs ts =
             Inr (''CREATE TABLE '' @ [CHR 0x60] @ TableName c @ [CHR 0x60] @ '' ('' @ [CHR 0x0A]
                  @ Join (columns
                          @ [''  PRIMARY KEY (''
                             @ Join (map (\<lambda>pk. [CHR 0x60] @ pk @ [CHR 0x60]) (PrimaryKeys c)) '', ''
                             @ '')''])
                      ('','' @ [CHR 0x0A])
                  @ tableSuffix)
         \<and> generateCreateTable_lib c hs ts =
             Inr (''-- DROP TABLE '' @ TableName c @ '';'' @ [CHR 0x0A]
                  @ ''CREATE TABLE '' @ [CHR 0x60] @ TableName c @ [CHR 0x60] @ '' ('' @ [CHR 0x0A]
                  @ Join (columns
                          @ [''  PRIMARY KEY (''
                             @ Join (map (\<lambda>pk. [CHR 0x60] @ pk @ [CHR 0x60]) (PrimaryKeys c)) '', ''
                             @ '')''])
                      ('','' @ [CHR 0x0A])
                  @ tableSuffix)"
proof -
  from assms(2) obtain columns where cols: "columnDefs hs ts = Inr columns"
    using columnDefs_total by blast
  with assms(1) show ?thesis
    by (simp add: generateCreateTable_def generateCreateTable_lib_def withPrimaryKey_def
        pkColumns_map backquote_def nl_def)
qed

text \<open>
  The primary keys \<open>internal_code\<close>, a skipped column, and \<open>nope\<close>, no column at all:
  both are in the clause, each between backquotes, and the table has the one column
  \<open>id\<close>. The two texts are written out byte by byte.
\<close>

theorem primary_key_clause_unvalidated_witness:
  "PrimaryKeys (DefaultConfig\<lparr>TableName := ''t'', PrimaryKeys := [''internal_code'', ''nope'']\<rparr>) \<noteq> []
   \<and> length [''BIGINT'', ''SKIP''] = length [''id'', ''internal_code'']
   \<and> columnDefs [''id'', ''internal_code''] [''BIGINT'', ''SKIP'']
        = Inr [''  '' @ [CHR 0x60] @ ''id'' @ [CHR 0x60] @ '' BIGINT'']
   \<and> generateCreateTable
         (DefaultConfig\<lparr>TableName := ''t'', PrimaryKeys := [''internal_code'', ''nope'']\<rparr>)
         [''id'', ''internal_code''] [''BIGINT'', ''SKIP'']
        = Inr (''CREATE TABLE '' @ [CHR 0x60] @ ''t'' @ [CHR 0x60] @ '' ('' @ [CHR 0x0A]
               @ ''  '' @ [CHR 0x60] @ ''id'' @ [CHR 0x60] @ '' BIGINT,'' @ [CHR 0x0A]
               @ ''  PRIMARY KEY ('' @ [CHR 0x60] @ ''internal_code'' @ [CHR 0x60] @ '', ''
               @ [CHR 0x60] @ ''nope'' @ [CHR 0x60] @ '')'' @ [CHR 0x0A]
               @ '') ENGINE=InnoDB DEFAULT CHARSET=utf8mb4 COLLATE=utf8mb4_unicode_ci;'')
   \<and> generateCreateTable_lib
         (DefaultConfig\<lparr>TableName := ''t'', PrimaryKeys := [''internal_code'', ''nope'']\<rparr>)
         [''id'', ''internal_code''] [''BIGINT'', ''SKIP'']
        = Inr (''-- DROP TABLE t;'' @ [CHR 0x0A]
               @ ''CREATE TABLE '' @ [CHR 0x60] @ ''t'' @ [CHR 0x60] @ '' ('' @ [CHR 0x0A]
               @ ''  '' @ [CHR 0x60] @ ''id'' @ [CHR 0x60] @ '' BIGINT,'' @ [CHR 0x0A]
               @ ''  PRIMARY KEY ('' @ [CHR 0x60] @ ''internal_code'' @ [CHR 0x60] @ '', ''
               @ [CHR 0x60] @ ''nope'' @ [CHR 0x60] @ '')'' @ [CHR 0x0A]
               @ '') ENGINE=InnoDB DEFAULT CHARSET=utf8mb4 COLLATE=utf8mb4_unicode_ci;'')"
proof -
  let ?c = "DefaultConfig\<lparr>TableName := ''t'', PrimaryKeys := [''internal_code'', ''nope'']\<rparr>"
  have pk: "PrimaryKeys ?c \<noteq> []"
    by simp
  have len: "length [''BIGINT'', ''SKIP''] = length [''id'', ''internal_code'']"
    by simp
  have cols: "columnDefs [''id'', ''internal_code''] [''BIGINT'', ''SKIP'']
        = Inr [''  '' @ [CHR 0x60] @ ''id'' @ [CHR 0x60] @ '' BIGINT'']"
    by (simp add: backquote_def)
  from primary_key_clause_unvalidated [OF pk len] cols pk len show ?thesis
    by (simp add: tableSuffix_def nl_def)
qed

section \<open>Batches\<close>

lemma spec_batches_concat: "concat (spec_batches n buf xs) = buf @ xs"
  by (induction xs arbitrary: buf) auto

lemma spec_batches_sizes:
  "0 < n \<Longrightarrow> length buf < n \<Longrightarrow> b \<in> set (spec_batches n buf xs) \<Longrightarrow>
   1 \<le> length b \<and> length b \<le> n"
proof (induction xs arbitrary: buf)
  case Nil
  then show ?case by (cases buf) (auto split: if_splits)
next
  case (Cons x xs)
  show ?case
  proof (cases "length (buf @ [x]) \<ge> n")
    case True
    with Cons.prems have "b = buf @ [x] \<or> b \<in> set (spec_batches n [] xs)" by simp
    then show ?thesis
    proof
      assume "b = buf @ [x]"
      with Cons.prems(2) show ?thesis by simp
    next
      assume "b \<in> set (spec_batches n [] xs)"
      with Cons.IH [of "[]"] Cons.prems(1) show ?thesis by simp
    qed
  next
    case False
    with Cons.prems have "b \<in> set (spec_batches n (buf @ [x]) xs)" by simp
    with Cons.IH [of "buf @ [x]"] Cons.prems(1) False show ?thesis by simp
  qed
qed

lemma spec_batches_full:
  "0 < n \<Longrightarrow> length buf < n \<Longrightarrow> b \<in> set (butlast (spec_batches n buf xs)) \<Longrightarrow> length b = n"
proof (induction xs arbitrary: buf)
  case Nil
  then show ?case by (auto split: if_splits)
next
  case (Cons x xs)
  show ?case
  proof (cases "length (buf @ [x]) \<ge> n")
    case True
    with Cons.prems(3) have "b = buf @ [x] \<or> b \<in> set (butlast (spec_batches n [] xs))"
      by (auto split: if_splits)
    then show ?thesis
    proof
      assume "b = buf @ [x]"
      with Cons.prems(2) True show ?thesis by simp
    next
      assume "b \<in> set (butlast (spec_batches n [] xs))"
      with Cons.IH [of "[]"] Cons.prems(1) show ?thesis by simp
    qed
  next
    case False
    with Cons.prems have "b \<in> set (butlast (spec_batches n (buf @ [x]) xs))" by simp
    with Cons.IH [of "buf @ [x]"] Cons.prems(1) False show ?thesis by simp
  qed
qed

lemma insertLoop_batches:
  assumes "BatchInsert c" and "formatInsertColumns hs ts = Inr cols"
    and "length ts = length hs"
  shows "\<forall>r \<in> set recs. length r = length hs \<Longrightarrow>
     (case insertLoop c hs ts (map Inr recs) sb buf of
        Inl e \<Rightarrow> Inl e
      | Inr st \<Rightarrow> flushRest c hs ts st)
     = Inr (sb @ map (batchStatement c cols)
                  (spec_batches (nat (BatchSize c)) buf
                     (map (\<lambda>r. tuple (keptValues c hs ts r)) recs)))"
proof (induction recs arbitrary: sb buf)
  case Nil
  then show ?case
    using assms by (simp add: flushRest_def formatBatchInsert_def batchStatement_def)
next
  case (Cons r recs)
  then have len: "length r = length hs" and rest: "\<forall>r \<in> set recs. length r = length hs"
    by simp_all
  have vals: "prepareValues c ts r = Inr (keptValues c hs ts r)"
    using assms(3) len by (rule prepareValues_kept)
  have cmp: "(BatchSize c \<le> int (length buf) + 1) = (nat (BatchSize c) \<le> Suc (length buf))"
    by linarith
  show ?case
  proof (cases "BatchSize c \<le> int (length buf) + 1")
    case True
    with cmp have n: "nat (BatchSize c) \<le> Suc (length buf)" by simp
    show ?thesis
      using assms len vals True n Cons.IH [OF rest, of "sb @ [batchStatement c cols (buf @ [tuple (keptValues c hs ts r)])]" "[]"]
      by (simp add: formatBatchInsert_def batchStatement_def)
  next
    case False
    with cmp have n: "\<not> nat (BatchSize c) \<le> Suc (length buf)" by simp
    show ?thesis
      using assms len vals False n Cons.IH [OF rest, of sb "buf @ [tuple (keptValues c hs ts r)]"]
      by simp
  qed
qed

lemma insertLoop_singles:
  assumes "\<not> BatchInsert c" and "formatInsertColumns hs ts = Inr cols"
    and "length ts = length hs"
  shows "\<forall>r \<in> set recs. length r = length hs \<Longrightarrow>
     insertLoop c hs ts (map Inr recs) sb buf
     = Inr (sb @ map (\<lambda>r. singleStatement c cols (keptValues c hs ts r)) recs, buf)"
proof (induction recs arbitrary: sb)
  case Nil
  then show ?case by simp
next
  case (Cons r recs)
  then have len: "length r = length hs" and rest: "\<forall>r \<in> set recs. length r = length hs"
    by simp_all
  have vals: "prepareValues c ts r = Inr (keptValues c hs ts r)"
    using assms(3) len by (rule prepareValues_kept)
  show ?case
    using assms len vals Cons.IH [OF rest, of "sb @ [singleStatement c cols (keptValues c hs ts r)]"]
    by (simp add: formatSingleInsert_def singleStatement_def)
qed

text \<open>
  Claim C7. In batch mode, with a batch size of at least 1 (the invariant of the
  configuration), one type per header and data rows that are all records as long as the
  headers: the strings written to the builder are the batch statements of the batches
  that the batching discipline makes of the row tuples, in order; the batches put end to
  end are the row tuples, each once and in the order of the rows; every batch holds at
  least 1 and at most \<open>BatchSize\<close> tuples; and every batch but the last holds exactly
  \<open>BatchSize\<close>.
\<close>

theorem batches_bounded_and_complete:
  assumes "BatchInsert c" and "1 \<le> BatchSize c" and "length ts = length hs"
    and "skipHeader c input = Inr (map Inr recs)"
    and "\<forall>r \<in> set recs. length r = length hs"
  shows "\<exists>cols.
       formatInsertColumns hs ts = Inr cols
     \<and> insertWrites c hs ts input
         = Inr (map (batchStatement c cols)
                  (spec_batches (nat (BatchSize c)) [] (map (\<lambda>r. tuple (keptValues c hs ts r)) recs)))
     \<and> generateInsertStatements c hs ts input
         = Inr (concat (map (batchStatement c cols)
                  (spec_batches (nat (BatchSize c)) [] (map (\<lambda>r. tuple (keptValues c hs ts r)) recs))))
     \<and> concat (spec_batches (nat (BatchSize c)) [] (map (\<lambda>r. tuple (keptValues c hs ts r)) recs))
         = map (\<lambda>r. tuple (keptValues c hs ts r)) recs
     \<and> (\<forall>b \<in> set (spec_batches (nat (BatchSize c)) [] (map (\<lambda>r. tuple (keptValues c hs ts r)) recs)).
           1 \<le> length b \<and> int (length b) \<le> BatchSize c)
     \<and> (\<forall>b \<in> set (butlast (spec_batches (nat (BatchSize c)) []
                                (map (\<lambda>r. tuple (keptValues c hs ts r)) recs))).
           int (length b) = BatchSize c)"
proof -
  let ?n = "nat (BatchSize c)"
  let ?tuples = "map (\<lambda>r. tuple (keptValues c hs ts r)) recs"
  from assms(3) obtain cols where cols: "formatInsertColumns hs ts = Inr cols"
    using formatInsertColumns_total by blast
  have n: "0 < ?n"
    using assms(2) by simp
  have loop: "(case insertLoop c hs ts (map Inr recs) [] [] of
        Inl e \<Rightarrow> Inl e
      | Inr st \<Rightarrow> flushRest c hs ts st)
     = Inr ([] @ map (batchStatement c cols) (spec_batches ?n [] ?tuples))"
    using assms(5) by (rule insertLoop_batches [OF assms(1) cols assms(3)])
  have writes: "insertWrites c hs ts input
      = Inr (map (batchStatement c cols) (spec_batches ?n [] ?tuples))"
    using loop assms(4) by (simp add: insertWrites_def)
  then have out: "generateInsertStatements c hs ts input
      = Inr (concat (map (batchStatement c cols) (spec_batches ?n [] ?tuples)))"
    by (simp add: generateInsertStatements_def)
  have all: "concat (spec_batches ?n [] ?tuples) = ?tuples"
    by (simp add: spec_batches_concat)
  have sizes: "\<forall>b \<in> set (spec_batches ?n [] ?tuples). 1 \<le> length b \<and> int (length b) \<le> BatchSize c"
  proof
    fix b assume "b \<in> set (spec_batches ?n [] ?tuples)"
    with n have "1 \<le> length b \<and> length b \<le> ?n"
      by (intro spec_batches_sizes [of ?n "[]"]) simp_all
    with assms(2) show "1 \<le> length b \<and> int (length b) \<le> BatchSize c"
      by linarith
  qed
  have full: "\<forall>b \<in> set (butlast (spec_batches ?n [] ?tuples)). int (length b) = BatchSize c"
  proof
    fix b assume "b \<in> set (butlast (spec_batches ?n [] ?tuples))"
    with n have "length b = ?n"
      by (intro spec_batches_full [of ?n "[]"]) simp_all
    with assms(2) show "int (length b) = BatchSize c"
      by linarith
  qed
  from cols writes out all sizes full show ?thesis
    by blast
qed

text \<open>A batch size of 2 and three rows: one statement of two tuples, one of one.\<close>

theorem batches_bounded_and_complete_witness:
  "insertWrites (DefaultConfig\<lparr>TableName := ''t'', BatchSize := 2\<rparr>) [''id''] [''INT'']
     [Inr [''id''], Inr [''1''], Inr [''2''], Inr [''3'']]
     = Inr [batchStatement (DefaultConfig\<lparr>TableName := ''t'', BatchSize := 2\<rparr>) (backquote ''id'')
              [''(1)'', ''(2)''],
            batchStatement (DefaultConfig\<lparr>TableName := ''t'', BatchSize := 2\<rparr>) (backquote ''id'')
              [''(3)'']]
   \<and> spec_batches 2 [] [''(1)'', ''(2)'', ''(3)''] = [[''(1)'', ''(2)''], [''(3)'']]"
proof -
  let ?c = "DefaultConfig\<lparr>TableName := ''t'', BatchSize := 2\<rparr>"
  let ?recs = "[[''1''], [''2''], [''3'']]"
  have a1: "BatchInsert ?c" and a2: "1 \<le> BatchSize ?c"
    by (simp_all add: DefaultConfig_def)
  have a3: "length [''INT''] = length [''id'']"
    by simp
  have a4: "skipHeader ?c [Inr [''id''], Inr [''1''], Inr [''2''], Inr [''3'']] = Inr (map Inr ?recs)"
    by (simp add: skipHeader_def DefaultConfig_def)
  have a5: "\<forall>r \<in> set ?recs. length r = length [''id'']"
    by simp
  have cols: "formatInsertColumns [''id''] [''INT''] = Inr (backquote ''id'')"
    by (simp add: formatInsertColumns_def)
  have n: "nat (BatchSize ?c) = 2"
    by simp
  have tuples: "map (\<lambda>r. tuple (keptValues ?c [''id''] [''INT''] r)) ?recs = [''(1)'', ''(2)'', ''(3)'']"
    by code_simp
  have bs: "spec_batches 2 [] [''(1)'', ''(2)'', ''(3)''] = [[''(1)'', ''(2)''], [''(3)'']]"
    by simp
  from batches_bounded_and_complete [OF a1 a2 a3 a4 a5] cols
  have "insertWrites ?c [''id''] [''INT''] [Inr [''id''], Inr [''1''], Inr [''2''], Inr [''3'']]
      = Inr (map (batchStatement ?c (backquote ''id''))
               (spec_batches (nat (BatchSize ?c)) []
                  (map (\<lambda>r. tuple (keptValues ?c [''id''] [''INT''] r)) ?recs)))"
    by auto
  then show ?thesis
    unfolding n tuples bs by simp
qed

section \<open>Rows that are all NULL\<close>

text \<open>
  The examples that the documentation of \<open>unicode.SimpleFold\<close> gives: \<open>A\<close> and \<open>a\<close>;
  \<open>K\<close>, \<open>k\<close> and the Kelvin sign U+212A; the digit \<open>1\<close>.
\<close>

lemma SimpleFold_examples:
  "SimpleFold 0x41 = 0x61" "SimpleFold 0x61 = 0x41"
  "SimpleFold 0x4B = 0x6B" "SimpleFold 0x6B = 0x212A" "SimpleFold 0x212A = 0x4B"
  "SimpleFold 0x31 = 0x31"
  by code_simp+

text \<open>
  \<open>EqualFold\<close> at work: letters in either case; the Kelvin sign U+212A and the long s
  U+017F, which fold with \<open>k\<close> and \<open>s\<close>; letters outside ASCII; the dotted capital I,
  which folds with nothing; and bytes that are no UTF-8, each read as U+FFFD.
\<close>

lemma EqualFold_examples:
  "EqualFold '' null'' '' NULL''"
  "EqualFold ''k'' [CHR 0xE2, CHR 0x84, CHR 0xAA]"
  "EqualFold [CHR 0xE2, CHR 0x84, CHR 0xAA] ''K''"
  "EqualFold ''S'' [CHR 0xC5, CHR 0xBF]"
  "EqualFold [CHR 0xC3, CHR 0x89] [CHR 0xC3, CHR 0xA9]"
  "EqualFold [CHR 0xCE, CHR 0xA3] [CHR 0xCF, CHR 0x82]"
  "\<not> EqualFold [CHR 0xC4, CHR 0xB0] ''i''"
  "\<not> EqualFold ''nul'' ''null''"
  "\<not> EqualFold ''n-ll'' ''nMll''"
  "EqualFold [CHR 0xFF] [CHR 0x80]"
  "EqualFold [CHR 0xC3] [CHR 0xEF, CHR 0xBF, CHR 0xBD]"
  "\<not> EqualFold [CHR 0xC3, CHR 0x28] [CHR 0xEF, CHR 0xBF, CHR 0xBD]"
  by code_simp+

lemma keptValues_null:
  assumes "nullRow c r" and "length ts = length hs" and "length r = length hs"
  shows "keptValues c hs ts r = replicate (length (filter (\<lambda>t. t \<noteq> ''SKIP'') ts)) ''NULL''"
proof -
  from assms(2,3) have "length hs = length ts" and "length ts = length r"
    by simp_all
  then show ?thesis
    using assms(1)
  proof (induction hs ts r rule: list_induct3)
    case Nil
    then show ?case by (simp add: keptValues_def keptColumns_def)
  next
    case (Cons h hs t ts v vs)
    then show ?case
      by (simp add: keptValues_def keptColumns_def nullRow_def serializeValue_def)
  qed
qed

lemma nullRow_emptyRow: "nullRow c r \<Longrightarrow> r \<noteq> [] \<Longrightarrow> emptyRow c r"
  by (cases r; cases "tl r") (auto simp: nullRow_def emptyRow_def)

lemma insertLoop_lib_drops:
  assumes "emptyRow c q" and "q \<noteq> []"
  shows "insertLoop_lib c hs ts (pre @ Inr q # post) sb buf
           = insertLoop_lib c hs ts (pre @ post) sb buf"
proof (induction pre arbitrary: sb buf)
  case Nil
  then show ?case
    using assms by simp
next
  case (Cons row pre)
  show ?case
  proof (cases row)
    case (Inl e)
    then show ?thesis by (simp add: Cons.IH)
  next
    case (Inr p)
    then show ?thesis by (simp add: Cons.IH split: sum.splits)
  qed
qed

lemma generateInsertStatements_lib_drops:
  assumes "emptyRow c q" and "q \<noteq> []" and "length hdr = (if HasHeader c then 1 else 0)"
  shows "generateInsertStatements_lib c hs ts (hdr @ before @ Inr q # after)
           = generateInsertStatements_lib c hs ts (hdr @ before @ after)"
proof -
  have d: "\<And>rest. (if HasHeader c then drop 1 (hdr @ rest) else hdr @ rest) = rest"
    using assms(3) by (cases hdr) (auto split: if_splits)
  have l: "insertLoop_lib c hs ts (before @ Inr q # after) [] []
             = insertLoop_lib c hs ts (before @ after) [] []"
    using assms(1,2) by (rule insertLoop_lib_drops)
  show ?thesis
    unfolding generateInsertStatements_lib_def insertWrites_lib_def d l ..
qed

text \<open>
  On records that all have the header's length, the library's loop does what the strict
  loop does on the records that do not pass the test for an empty row.
\<close>

lemma insertLoop_lib_filter:
  assumes "hs \<noteq> []"
  shows "\<forall>p \<in> set recs. length p = length hs \<Longrightarrow>
     insertLoop_lib c hs ts (map Inr recs) sb buf
       = insertLoop c hs ts (map Inr (filter (\<lambda>p. \<not> emptyRow c p) recs)) sb buf"
proof (induction recs arbitrary: sb buf)
  case Nil
  then show ?case by simp
next
  case (Cons r recs)
  then have len: "length r = length hs" and rest: "\<forall>p \<in> set recs. length p = length hs"
    by simp_all
  from len assms have ne: "r \<noteq> []"
    by auto
  show ?case
  proof (cases "emptyRow c r")
    case True
    with len ne show ?thesis
      by (simp add: Cons.IH [OF rest])
  next
    case False
    with len ne show ?thesis
      by (simp add: Cons.IH [OF rest] split: sum.splits)
  qed
qed

text \<open>
  Claim C6, as stated, says that the all-NULL tuple is in the emitted output. The
  library's \<open>generateInsertStatements\<close> skips the row before it serializes it: for a file
  with the header \<open>a,b\<close> and one data row, an empty field and the NULL literal in lower
  case, it emits nothing.
\<close>

theorem all_null_row_dropped_counterexample:
  "nullRow DefaultConfig ['''', '' null '']
   \<and> generateInsertStatements_lib DefaultConfig [''a'', ''b''] [''TEXT'', ''TEXT'']
        [Inr [''a'', ''b''], Inr ['''', '' null '']] = Inr []"
  by code_simp

text \<open>
  Claim C6, amended. Let every field of \<open>r\<close> be empty or the NULL literal after
  trimming, with one type and one field per header. The serializer maps \<open>r\<close> to as many
  \<open>NULL\<close> as there are columns that are not skipped. In the converter with the strict
  second pass, when \<open>r\<close> stands among data rows that all have the header's length, its
  tuple is emitted at its place: in batch mode the batches put end to end hold one tuple
  per data row and the one at the place of \<open>r\<close> is the all-NULL tuple; in single mode
  there is one statement per data row and the one at the place of \<open>r\<close> holds the NULLs.
  The library's loop, when \<open>r\<close> has a field at all, goes over \<open>r\<close> as if it were not
  there, and so does its \<open>generateInsertStatements\<close>: \<open>r\<close> passes the library's test for
  an empty row (the first field and, in a row of two fields or more, the second are
  empty or the NULL literal after trimming). The library goes over every row \<open>q\<close> that
  passes this test, whatever its other fields hold; and on rows that all have the
  header's length its loop does what the strict loop does on the rows that do not pass
  the test.
\<close>

theorem all_null_row_serialized:
  assumes "nullRow c r" and "length ts = length hs" and "length r = length hs"
    and "\<forall>p \<in> set (pre @ post). length p = length hs"
    and "skipHeader c input = Inr (map Inr (pre @ r # post))"
  shows "prepareValues c ts r = Inr (replicate (length (filter (\<lambda>t. t \<noteq> ''SKIP'') ts)) ''NULL'')
     \<and> (\<exists>cols. formatInsertColumns hs ts = Inr cols
          \<and> (if BatchInsert c
              then \<exists>bs. insertWrites c hs ts input = Inr (map (batchStatement c cols) bs)
                     \<and> length (concat bs) = length pre + 1 + length post
                     \<and> concat bs ! length pre
                         = tuple (replicate (length (filter (\<lambda>t. t \<noteq> ''SKIP'') ts)) ''NULL'')
              else \<exists>ws. insertWrites c hs ts input = Inr ws
                     \<and> length ws = length pre + 1 + length post
                     \<and> ws ! length pre
                         = singleStatement c cols
                             (replicate (length (filter (\<lambda>t. t \<noteq> ''SKIP'') ts)) ''NULL'')))
     \<and> (if r \<noteq> [] \<and> length hdr = (if HasHeader c then 1 else 0)
         then insertLoop_lib c hs ts (before @ Inr r # after) sb buf
                = insertLoop_lib c hs ts (before @ after) sb buf
            \<and> generateInsertStatements_lib c hs ts (hdr @ before @ Inr r # after)
                = generateInsertStatements_lib c hs ts (hdr @ before @ after)
         else True)
     \<and> (if r \<noteq> [] then emptyRow c r else True)
     \<and> (if q \<noteq> [] \<and> emptyRow c q \<and> length hdr = (if HasHeader c then 1 else 0)
         then insertLoop_lib c hs ts (before @ Inr q # after) sb buf
                = insertLoop_lib c hs ts (before @ after) sb buf
            \<and> generateInsertStatements_lib c hs ts (hdr @ before @ Inr q # after)
                = generateInsertStatements_lib c hs ts (hdr @ before @ after)
         else True)
     \<and> (if hs \<noteq> [] \<and> list_all (\<lambda>p. length p = length hs) recs
         then insertLoop_lib c hs ts (map Inr recs) sb buf
                = insertLoop c hs ts (map Inr (filter (\<lambda>p. \<not> emptyRow c p) recs)) sb buf
         else True)"
proof -
  let ?nulls = "replicate (length (filter (\<lambda>t. t \<noteq> ''SKIP'') ts)) ''NULL''"
  let ?recs = "pre @ r # post"
  have kv: "keptValues c hs ts r = ?nulls"
    using assms(1,2,3) by (rule keptValues_null)
  have "prepareValues c ts r = Inr (keptValues c hs ts r)"
    using assms(2,3) by (rule prepareValues_kept)
  with kv have vals: "prepareValues c ts r = Inr ?nulls"
    by simp
  from assms(2) obtain cols where cols: "formatInsertColumns hs ts = Inr cols"
    using formatInsertColumns_total by blast
  have lens: "\<forall>p \<in> set ?recs. length p = length hs"
    using assms(3,4) by auto
  have strict: "if BatchInsert c
              then \<exists>bs. insertWrites c hs ts input = Inr (map (batchStatement c cols) bs)
                     \<and> length (concat bs) = length pre + 1 + length post
                     \<and> concat bs ! length pre = tuple ?nulls
              else \<exists>ws. insertWrites c hs ts input = Inr ws
                     \<and> length ws = length pre + 1 + length post
                     \<and> ws ! length pre = singleStatement c cols ?nulls"
  proof (cases "BatchInsert c")
    case True
    let ?bs = "spec_batches (nat (BatchSize c)) [] (map (\<lambda>r. tuple (keptValues c hs ts r)) ?recs)"
    have "(case insertLoop c hs ts (map Inr ?recs) [] [] of
             Inl e \<Rightarrow> Inl e
           | Inr st \<Rightarrow> flushRest c hs ts st)
          = Inr ([] @ map (batchStatement c cols) ?bs)"
      using lens by (rule insertLoop_batches [OF True cols assms(2)])
    with assms(5) have w: "insertWrites c hs ts input = Inr (map (batchStatement c cols) ?bs)"
      by (simp add: insertWrites_def)
    have cc: "concat ?bs = map (\<lambda>r. tuple (keptValues c hs ts r)) ?recs"
      by (simp add: spec_batches_concat)
    then have "length (concat ?bs) = length pre + 1 + length post"
      by simp
    moreover from cc have "concat ?bs ! length pre = tuple ?nulls"
      by (simp add: nth_append kv)
    ultimately show ?thesis
      using True w by auto
  next
    case False
    let ?ws = "map (\<lambda>r. singleStatement c cols (keptValues c hs ts r)) ?recs"
    have "insertLoop c hs ts (map Inr ?recs) [] [] = Inr ([] @ ?ws, [])"
      using lens by (rule insertLoop_singles [OF False cols assms(2)])
    with assms(5) have w: "insertWrites c hs ts input = Inr ?ws"
      by (simp add: insertWrites_def flushRest_def)
    have "length ?ws = length pre + 1 + length post"
      by simp
    moreover have "?ws ! length pre = singleStatement c cols ?nulls"
      by (simp add: nth_append kv)
    ultimately show ?thesis
      using False w by auto
  qed
  have skips: "\<And>p. if p \<noteq> [] \<and> emptyRow c p \<and> length hdr = (if HasHeader c then 1 else 0)
         then insertLoop_lib c hs ts (before @ Inr p # after) sb buf
                = insertLoop_lib c hs ts (before @ after) sb buf
            \<and> generateInsertStatements_lib c hs ts (hdr @ before @ Inr p # after)
                = generateInsertStatements_lib c hs ts (hdr @ before @ after)
         else True"
  proof -
    fix p
    show "if p \<noteq> [] \<and> emptyRow c p \<and> length hdr = (if HasHeader c then 1 else 0)
         then insertLoop_lib c hs ts (before @ Inr p # after) sb buf
                = insertLoop_lib c hs ts (before @ after) sb buf
            \<and> generateInsertStatements_lib c hs ts (hdr @ before @ Inr p # after)
                = generateInsertStatements_lib c hs ts (hdr @ before @ after)
         else True"
    proof (cases "p \<noteq> [] \<and> emptyRow c p \<and> length hdr = (if HasHeader c then 1 else 0)")
      case True
      then have p: "p \<noteq> []" and e: "emptyRow c p"
        and h: "length hdr = (if HasHeader c then 1 else 0)"
        by simp_all
      have l: "insertLoop_lib c hs ts (before @ Inr p # after) sb buf
                = insertLoop_lib c hs ts (before @ after) sb buf"
        using e p by (rule insertLoop_lib_drops)
      have g: "generateInsertStatements_lib c hs ts (hdr @ before @ Inr p # after)
                = generateInsertStatements_lib c hs ts (hdr @ before @ after)"
        using e p h by (rule generateInsertStatements_lib_drops)
      from l g have both: "insertLoop_lib c hs ts (before @ Inr p # after) sb buf
                = insertLoop_lib c hs ts (before @ after) sb buf
            \<and> generateInsertStatements_lib c hs ts (hdr @ before @ Inr p # after)
                = generateInsertStatements_lib c hs ts (hdr @ before @ after)"
        by (rule conjI)
      show ?thesis
        by (simp only: if_P [OF True] both)
    next
      case False
      then show ?thesis by (simp only: if_not_P if_False)
    qed
  qed
  have guard: "if r \<noteq> [] then emptyRow c r else True"
    using assms(1) by (simp add: nullRow_emptyRow)
  have lib: "if r \<noteq> [] \<and> length hdr = (if HasHeader c then 1 else 0)
         then insertLoop_lib c hs ts (before @ Inr r # after) sb buf
                = insertLoop_lib c hs ts (before @ after) sb buf
            \<and> generateInsertStatements_lib c hs ts (hdr @ before @ Inr r # after)
                = generateInsertStatements_lib c hs ts (hdr @ before @ after)
         else True"
  proof (cases "r \<noteq> [] \<and> length hdr = (if HasHeader c then 1 else 0)")
    case True
    then have e: "r \<noteq> [] \<and> emptyRow c r \<and> length hdr = (if HasHeader c then 1 else 0)"
      using assms(1) by (simp add: nullRow_emptyRow)
    have "insertLoop_lib c hs ts (before @ Inr r # after) sb buf
                = insertLoop_lib c hs ts (before @ after) sb buf
            \<and> generateInsertStatements_lib c hs ts (hdr @ before @ Inr r # after)
                = generateInsertStatements_lib c hs ts (hdr @ before @ after)"
      using skips [of r] unfolding if_P [OF e] .
    then show ?thesis
      unfolding if_P [OF True] .
  next
    case False
    then show ?thesis by (simp only: if_not_P if_False)
  qed
  have filt: "if hs \<noteq> [] \<and> list_all (\<lambda>p. length p = length hs) recs
         then insertLoop_lib c hs ts (map Inr recs) sb buf
                = insertLoop c hs ts (map Inr (filter (\<lambda>p. \<not> emptyRow c p) recs)) sb buf
         else True"
  proof (cases "hs \<noteq> [] \<and> list_all (\<lambda>p. length p = length hs) recs")
    case True
    then have h: "hs \<noteq> []" and a: "\<forall>p \<in> set recs. length p = length hs"
      by (simp_all add: list_all_iff)
    have "insertLoop_lib c hs ts (map Inr recs) sb buf
                = insertLoop c hs ts (map Inr (filter (\<lambda>p. \<not> emptyRow c p) recs)) sb buf"
      using a by (rule insertLoop_lib_filter [OF h])
    then show ?thesis
      by (simp only: if_P [OF True])
  next
    case False
    then show ?thesis by (simp only: if_not_P if_False)
  qed
  from vals cols strict lib guard skips [of q] filt show ?thesis
    by blast
qed

text \<open>
  The NULL literal \<open>k.A.\<close>, the header \<open>a,b,c\<close> and three data rows: a row of values; a
  row of an empty field, the literal in other letters and the literal written with the
  Kelvin sign; and a row of two empty fields and a value. The strict converter emits the
  three tuples in one batch. The library emits the first only: the second row is all
  NULL, the third is not and passes the test for an empty row all the same.
\<close>

theorem all_null_row_serialized_witness:
  "nullRow (DefaultConfig\<lparr>NullString := ''k.A.''\<rparr>)
     ['''', '' K.a. '', [CHR 0xE2, CHR 0x84, CHR 0xAA] @ ''.a.'']
   \<and> prepareValues (DefaultConfig\<lparr>NullString := ''k.A.''\<rparr>) [''TEXT'', ''TEXT'', ''TEXT'']
        ['''', '' K.a. '', [CHR 0xE2, CHR 0x84, CHR 0xAA] @ ''.a.'']
       = Inr [''NULL'', ''NULL'', ''NULL'']
   \<and> insertWrites (DefaultConfig\<lparr>NullString := ''k.A.''\<rparr>) [''a'', ''b'', ''c'']
        [''TEXT'', ''TEXT'', ''TEXT'']
        [Inr [''a'', ''b'', ''c''], Inr [''1'', ''x'', ''y''],
         Inr ['''', '' K.a. '', [CHR 0xE2, CHR 0x84, CHR 0xAA] @ ''.a.''], Inr ['''', '''', ''z'']]
       = Inr [batchStatement (DefaultConfig\<lparr>NullString := ''k.A.''\<rparr>)
                (backquote ''a'' @ '', '' @ backquote ''b'' @ '', '' @ backquote ''c'')
                [''('' @ [CHR 0x27] @ ''1'' @ [CHR 0x27] @ '', '' @ [CHR 0x27] @ ''x'' @ [CHR 0x27]
                   @ '', '' @ [CHR 0x27] @ ''y'' @ [CHR 0x27] @ '')'',
                 ''(NULL, NULL, NULL)'',
                 ''(NULL, NULL, '' @ [CHR 0x27] @ ''z'' @ [CHR 0x27] @ '')'']]
   \<and> insertWrites_lib (DefaultConfig\<lparr>NullString := ''k.A.''\<rparr>) [''a'', ''b'', ''c'']
        [''TEXT'', ''TEXT'', ''TEXT'']
        [Inr [''a'', ''b'', ''c''], Inr [''1'', ''x'', ''y''],
         Inr ['''', '' K.a. '', [CHR 0xE2, CHR 0x84, CHR 0xAA] @ ''.a.''], Inr ['''', '''', ''z'']]
       = Inr [batchStatement (DefaultConfig\<lparr>NullString := ''k.A.''\<rparr>)
                (backquote ''a'' @ '', '' @ backquote ''b'' @ '', '' @ backquote ''c'')
                [''('' @ [CHR 0x27] @ ''1'' @ [CHR 0x27] @ '', '' @ [CHR 0x27] @ ''x'' @ [CHR 0x27]
                   @ '', '' @ [CHR 0x27] @ ''y'' @ [CHR 0x27] @ '')'']]
   \<and> emptyRow (DefaultConfig\<lparr>NullString := ''k.A.''\<rparr>)
        ['''', '' K.a. '', [CHR 0xE2, CHR 0x84, CHR 0xAA] @ ''.a.'']
   \<and> emptyRow (DefaultConfig\<lparr>NullString := ''k.A.''\<rparr>) ['''', '''', ''z'']
   \<and> \<not> nullRow (DefaultConfig\<lparr>NullString := ''k.A.''\<rparr>) ['''', '''', ''z'']
   \<and> generateInsertStatements_lib (DefaultConfig\<lparr>NullString := ''k.A.''\<rparr>) [''a'', ''b'', ''c'']
        [''TEXT'', ''TEXT'', ''TEXT'']
        ([Inr [''a'', ''b'', ''c'']] @ [Inr [''1'', ''x'', ''y'']] @ Inr ['''', '''', ''z''] # [])
       = generateInsertStatements_lib (DefaultConfig\<lparr>NullString := ''k.A.''\<rparr>) [''a'', ''b'', ''c'']
           [''TEXT'', ''TEXT'', ''TEXT''] ([Inr [''a'', ''b'', ''c'']] @ [Inr [''1'', ''x'', ''y'']] @ [])
   \<and> filter (\<lambda>p. \<not> emptyRow (DefaultConfig\<lparr>NullString := ''k.A.''\<rparr>) p)
        [[''1'', ''x'', ''y''], ['''', '' K.a. '', [CHR 0xE2, CHR 0x84, CHR 0xAA] @ ''.a.''],
         ['''', '''', ''z'']]
       = [[''1'', ''x'', ''y'']]
   \<and> insertLoop_lib (DefaultConfig\<lparr>NullString := ''k.A.''\<rparr>) [''a'', ''b'', ''c'']
        [''TEXT'', ''TEXT'', ''TEXT'']
        (map Inr [[''1'', ''x'', ''y''], ['''', '' K.a. '', [CHR 0xE2, CHR 0x84, CHR 0xAA] @ ''.a.''],
                  ['''', '''', ''z'']]) [] []
       = insertLoop (DefaultConfig\<lparr>NullString := ''k.A.''\<rparr>) [''a'', ''b'', ''c'']
           [''TEXT'', ''TEXT'', ''TEXT''] (map Inr [[''1'', ''x'', ''y'']]) [] []"
proof -
  let ?c = "DefaultConfig\<lparr>NullString := ''k.A.''\<rparr>"
  let ?r = "['''', '' K.a. '', [CHR 0xE2, CHR 0x84, CHR 0xAA] @ ''.a.'']"
  let ?q = "['''', '''', ''z'']"
  let ?p = "[''1'', ''x'', ''y'']"
  let ?hs = "[''a'', ''b'', ''c'']"
  let ?ts = "[''TEXT'', ''TEXT'', ''TEXT'']"
  let ?hdr = "[Inr [''a'', ''b'', ''c'']] :: readResult list"
  let ?input = "[Inr ?hs, Inr ?p, Inr ?r, Inr ?q]"
  let ?recs = "[?p, ?r, ?q]"
  have a1: "nullRow ?c ?r"
    by code_simp
  have a2: "length ?ts = length ?hs" and a3: "length ?r = length ?hs"
    by simp_all
  have a4: "\<forall>p \<in> set ([?p] @ [?q]). length p = length ?hs"
    by simp
  have a5: "skipHeader ?c ?input = Inr (map Inr ([?p] @ ?r # [?q]))"
    by (simp add: skipHeader_def DefaultConfig_def)
  note t = all_null_row_serialized [where q = ?q and hdr = ?hdr and before = "[Inr ?p]"
      and after = "[]" and sb = "[]" and buf = "[]" and recs = ?recs, OF a1 a2 a3 a4 a5]
  from t have vals: "prepareValues ?c ?ts ?r = Inr [''NULL'', ''NULL'', ''NULL'']"
    by simp
  from t have "if ?r \<noteq> [] then emptyRow ?c ?r else True"
    by blast
  then have er: "emptyRow ?c ?r"
    by (simp only: list.distinct not_False_eq_True if_True)
  have eq: "emptyRow ?c ?q"
    by code_simp
  have nq: "\<not> nullRow ?c ?q"
    by code_simp
  have cq: "?q \<noteq> [] \<and> emptyRow ?c ?q \<and> length ?hdr = (if HasHeader ?c then 1 else 0)"
    using eq by (simp add: DefaultConfig_def)
  from t have "if ?q \<noteq> [] \<and> emptyRow ?c ?q \<and> length ?hdr = (if HasHeader ?c then 1 else 0)
         then insertLoop_lib ?c ?hs ?ts ([Inr ?p] @ Inr ?q # []) [] []
                = insertLoop_lib ?c ?hs ?ts ([Inr ?p] @ []) [] []
            \<and> generateInsertStatements_lib ?c ?hs ?ts (?hdr @ [Inr ?p] @ Inr ?q # [])
                = generateInsertStatements_lib ?c ?hs ?ts (?hdr @ [Inr ?p] @ [])
         else True"
    by blast
  then have dq: "generateInsertStatements_lib ?c ?hs ?ts (?hdr @ [Inr ?p] @ Inr ?q # [])
                = generateInsertStatements_lib ?c ?hs ?ts (?hdr @ [Inr ?p] @ [])"
    by (simp only: if_P [OF cq])
  have fl: "filter (\<lambda>p. \<not> emptyRow ?c p) ?recs = [?p]"
    by code_simp
  have cf: "?hs \<noteq> [] \<and> list_all (\<lambda>p. length p = length ?hs) ?recs"
    by simp
  from t have "if ?hs \<noteq> [] \<and> list_all (\<lambda>p. length p = length ?hs) ?recs
         then insertLoop_lib ?c ?hs ?ts (map Inr ?recs) [] []
                = insertLoop ?c ?hs ?ts (map Inr (filter (\<lambda>p. \<not> emptyRow ?c p) ?recs)) [] []
         else True"
    by blast
  then have "insertLoop_lib ?c ?hs ?ts (map Inr ?recs) [] []
                = insertLoop ?c ?hs ?ts (map Inr (filter (\<lambda>p. \<not> emptyRow ?c p) ?recs)) [] []"
    by (simp only: if_P [OF cf])
  then have lf: "insertLoop_lib ?c ?hs ?ts (map Inr ?recs) [] []
                = insertLoop ?c ?hs ?ts (map Inr [?p]) [] []"
    by (simp only: fl)
  have strict: "insertWrites ?c ?hs ?ts ?input
       = Inr [batchStatement ?c (backquote ''a'' @ '', '' @ backquote ''b'' @ '', '' @ backquote ''c'')
                [''('' @ [CHR 0x27] @ ''1'' @ [CHR 0x27] @ '', '' @ [CHR 0x27] @ ''x'' @ [CHR 0x27]
                   @ '', '' @ [CHR 0x27] @ ''y'' @ [CHR 0x27] @ '')'',
                 ''(NULL, NULL, NULL)'',
                 ''(NULL, NULL, '' @ [CHR 0x27] @ ''z'' @ [CHR 0x27] @ '')'']]"
    by code_simp
  have lib: "insertWrites_lib ?c ?hs ?ts ?input
       = Inr [batchStatement ?c (backquote ''a'' @ '', '' @ backquote ''b'' @ '', '' @ backquote ''c'')
                [''('' @ [CHR 0x27] @ ''1'' @ [CHR 0x27] @ '', '' @ [CHR 0x27] @ ''x'' @ [CHR 0x27]
                   @ '', '' @ [CHR 0x27] @ ''y'' @ [CHR 0x27] @ '')'']]"
    by code_simp
  from a1 vals strict lib er eq nq dq fl lf show ?thesis
    by blast
qed

section \<open>The identifier sanitizer: runs, not characters\<close>

lemma replaceRuns_from:
  "concat (map (\<lambda>(c, afterIdent). if identChar c then [c] else if afterIdent then ''_'' else [])
               (zip s (p # map identChar s)))
   = (if p then sanitizeReplace s else sanitizeReplace (dropWhile (\<lambda>x. \<not> identChar x) s))"
  by (induction s arbitrary: p) auto

lemma sanitizeReplace_runs: "sanitizeReplace s = spec_replaceRuns s"
  by (simp add: spec_replaceRuns_def replaceRuns_from)

lemma sanitizeReplace_each:
  "\<not> adjacentOutside s \<Longrightarrow> sanitizeReplace s = spec_replaceEach s"
proof (induction s rule: adjacentOutside.induct)
  case (1 a b cs)
  then show ?case by (auto simp: spec_replaceEach_def)
qed (simp_all add: spec_replaceEach_def)

text \<open>
  Claim C9, as stated, says that every character outside the class is replaced with an
  underscore. The header \<open>a - b\<close> has three such characters in a row; the code makes
  one underscore of them and returns \<open>a_b\<close>, where the replacement of every character
  gives \<open>a___b\<close>.
\<close>

theorem sanitize_each_character_counterexample:
  "sanitizeColumnName ''a - b'' = ''a_b''
   \<and> spec_sanitize ''a - b'' = ''a___b''
   \<and> sanitizeColumnName ''a - b'' \<noteq> spec_sanitize ''a - b''"
proof -
  have a: "sanitizeColumnName ''a - b'' = ''a_b''"
    by code_simp
  have b: "spec_sanitize ''a - b'' = ''a___b''"
    by code_simp
  from a b show ?thesis by simp
qed

text \<open>
  Claim C9, amended. The sanitizer is \<open>sanitizeColumnName\<close> as the converter with the
  sampling limit and the library have it, built on the two regular expressions. For
  every input it trims the white space around it,
  replaces every maximal run of characters that are not ASCII letters, digits or
  underscores with one underscore, trims the underscores at both ends, puts an
  underscore in front of a result that is not empty and does not start with a letter or
  an underscore, and makes it lower case. On an input in which, once trimmed, no two
  characters outside the class are neighbours, that is the replacement of every such
  character. \<open>Order ID\<close> and \<open>Customer Name\<close> become \<open>order_id\<close> and \<open>customer_name\<close>.
\<close>

theorem sanitize_replaces_runs:
  "sanitizeColumnName s = spec_sanitize_runs s
   \<and> (if adjacentOutside (TrimSpace s) then True else sanitizeColumnName s = spec_sanitize s)
   \<and> sanitizeColumnName ''Order ID'' = ''order_id''
   \<and> sanitizeColumnName ''Customer Name'' = ''customer_name''"
proof -
  have "sanitizeColumnName s = spec_sanitize_runs s"
    by (simp add: sanitizeColumnName_def spec_sanitize_runs_def sanitizeReplace_runs)
  moreover have "if adjacentOutside (TrimSpace s) then True
                 else sanitizeColumnName s = spec_sanitize s"
    by (simp add: sanitizeColumnName_def spec_sanitize_def sanitizeReplace_each)
  moreover have "sanitizeColumnName ''Order ID'' = ''order_id''"
    by code_simp
  moreover have "sanitizeColumnName ''Customer Name'' = ''customer_name''"
    by code_simp
  ultimately show ?thesis by blast
qed

text \<open>
  \<open>Unit Price\<close> has no two neighbours outside the class, and both readings give
  \<open>unit_price\<close>; \<open>2nd  Price ($)\<close> has runs, and gets an underscore in front.
\<close>

theorem sanitize_replaces_runs_witness:
  "\<not> adjacentOutside (TrimSpace '' Unit Price '')
   \<and> sanitizeColumnName '' Unit Price '' = ''unit_price''
   \<and> spec_sanitize '' Unit Price '' = ''unit_price''
   \<and> spec_sanitize_runs ''2nd  Price ($)'' = ''_2nd_price''
   \<and> sanitizeColumnName ''2nd  Price ($)'' = ''_2nd_price''"
proof -
  have a: "\<not> adjacentOutside (TrimSpace '' Unit Price '')"
    by code_simp
  have b: "spec_sanitize '' Unit Price '' = ''unit_price''"
    by code_simp
  have c: "spec_sanitize_runs ''2nd  Price ($)'' = ''_2nd_price''"
    by code_simp
  have "if adjacentOutside (TrimSpace '' Unit Price '') then True
        else sanitizeColumnName '' Unit Price '' = spec_sanitize '' Unit Price ''"
    using sanitize_replaces_runs [of "'' Unit Price ''"] by blast
  with a have d: "sanitizeColumnName '' Unit Price '' = spec_sanitize '' Unit Price ''"
    by (simp only: if_False)
  have e: "sanitizeColumnName ''2nd  Price ($)'' = spec_sanitize_runs ''2nd  Price ($)''"
    using sanitize_replaces_runs [of "''2nd  Price ($)''"] by blast
  from a b c d e show ?thesis by simp
qed

end
